theory Spec2Isabelle
  imports Main "HOL-Library.AList" "HOL-Library.List_Lexorder" "HOL-Library.Char_ord"
begin

section \<open>Python values and exceptions\<close>

text \<open>
  The values that reach \<open>autosklearn/pipeline/base.py\<close> from its callers: \<open>None\<close>,
  booleans, integers, floats and strings. A float is carried by the text Python prints
  for it; no arithmetic is done on floats here. \<open>type(v) is int\<close> holds for \<open>PyInt\<close>
  only: \<open>type(True)\<close> is \<open>bool\<close>.
\<close>

datatype pyval = PyNone | PyBool bool | PyInt int | PyFloat string | PyStr string

text \<open>
  The exceptions the module raises, with their messages. \<open>InvalidKey\<close> is the
  \<open>ValueError\<close> of the include/exclude validation: it carries the argument's name
  (\<open>include\<close> or \<open>exclude\<close>), the offending key and the list of step names that the
  message is formatted from.
\<close>

datatype error =
    Exception string
  | ValueError string
  | InvalidKey string string "string list"
  | TypeError string
  | AttributeError string
  | AssertionError string
  | NotImplementedError string
  | OverflowError string

section \<open>Batched prediction\<close>

text \<open>
  A numpy array of one or two dimensions: its elements, or its rows under the width of a
  row. In a well-formed two-dimensional array every row has that width.
\<close>

datatype 'v ndarray = Array1 "'v list" | Array2 nat "'v list list"

fun map_array :: "('p \<Rightarrow> 'v) \<Rightarrow> 'p ndarray \<Rightarrow> 'v ndarray" where
  "map_array g (Array1 xs) = Array1 (map g xs)"
| "map_array g (Array2 w rows) = Array2 w (map (map g) rows)"

text \<open>
  The input \<open>X\<close> is array-like: an array, which has the attribute \<open>shape\<close> and slices by
  rows, or a plain list of rows, which sklearn accepts as well and which has no \<open>shape\<close>.
\<close>

datatype 'x array_like = NdArray "'x list" | PyList "'x list"

fun rows_of :: "'x array_like \<Rightarrow> 'x list" where
  "rows_of (NdArray rows) = rows"
| "rows_of (PyList rows) = rows"

text \<open>
  What \<open>predict\<close> reads of the pipeline object: the inherited
  \<open>sklearn.pipeline.Pipeline.predict\<close> of the fitted steps (\<open>super_predict\<close>, an external
  collaborator taken as a parameter, from the rows of the input to an array), the
  element conversion of \<open>.astype(self._output_dtype)\<close>, and \<open>self.num_targets\<close>.
\<close>

record ('x, 'p, 'v) fitted =
  super_predict :: "'x list \<Rightarrow> 'p ndarray"
  astype :: "'p \<Rightarrow> 'v"
  num_targets :: nat

text \<open>\<open>X[a:b]\<close> for \<open>0 \<le> a\<close>: the rows from \<open>a\<close> up to, not including, \<open>b\<close>, clipped to the array.\<close>

definition slice :: "nat \<Rightarrow> nat \<Rightarrow> 'a list \<Rightarrow> 'a list" where
  "slice a b xs = take (b - a) (drop a xs)"

fun slice_rows :: "nat \<Rightarrow> nat \<Rightarrow> 'v ndarray \<Rightarrow> 'v ndarray" where
  "slice_rows a b (Array1 xs) = Array1 (slice a b xs)"
| "slice_rows a b (Array2 w rows) = Array2 w (slice a b rows)"

text \<open>
  \<open>np.zeros((n,), dtype)\<close> when \<open>num_targets == 1\<close>, \<open>np.zeros((n, num_targets), dtype)\<close>
  otherwise.
\<close>

definition np_zeros :: "nat \<Rightarrow> nat \<Rightarrow> 'v::zero ndarray" where
  "np_zeros n t =
     (if t = 1 then Array1 (replicate n 0) else Array2 t (replicate n (replicate t 0)))"

text \<open>
  Broadcasting along one axis to the length \<open>m\<close>: a single entry is repeated \<open>m\<close> times,
  \<open>m\<close> entries stay, anything else does not broadcast.
\<close>

fun broadcast_dim :: "nat \<Rightarrow> 'a list \<Rightarrow> 'a list option" where
  "broadcast_dim m [x] = Some (replicate m x)"
| "broadcast_dim m xs = (if length xs = m then Some xs else None)"

text \<open>
  Broadcasting the value of an assignment to the shape of its target, as numpy does: the
  trailing axes are aligned and each is broadcast on its own; a one-dimensional value
  fills every row of a two-dimensional target; a two-dimensional value goes into a
  one-dimensional target only when its leading axis has length one, which is then
  dropped.
\<close>

fun broadcast :: "'v ndarray \<Rightarrow> 'v ndarray \<Rightarrow> 'v ndarray option" where
  "broadcast (Array1 vs) (Array1 ts) = map_option Array1 (broadcast_dim (length ts) vs)"
| "broadcast (Array2 w rows) (Array1 ts) =
     (case rows of
        [r] \<Rightarrow> map_option Array1 (broadcast_dim (length ts) r)
      | _ \<Rightarrow> None)"
| "broadcast (Array1 vs) (Array2 t trs) =
     map_option (\<lambda>r. Array2 t (replicate (length trs) r)) (broadcast_dim t vs)"
| "broadcast (Array2 w rows) (Array2 t trs) =
     (if w = t \<or> w = 1
      then (case broadcast_dim (length trs) rows of
              None \<Rightarrow> None
            | Some rows' \<Rightarrow> map_option (Array2 t) (those (map (broadcast_dim t) rows')))
      else None)"

text \<open>The array \<open>y\<close> with its rows from \<open>a\<close> on overwritten by the rows of \<open>v\<close>.\<close>

fun write_rows :: "'v ndarray \<Rightarrow> nat \<Rightarrow> 'v ndarray \<Rightarrow> 'v ndarray" where
  "write_rows (Array1 ys) a (Array1 vs) = Array1 (take a ys @ vs @ drop (a + length vs) ys)"
| "write_rows (Array2 t ys) a (Array2 w vs) =
     Array2 t (take a ys @ vs @ drop (a + length vs) ys)"
| "write_rows y a v = y"

text \<open>
  \<open>y[a:b] = v\<close>: the value is broadcast to the shape of the slice \<open>y[a:b]\<close> and written
  there; numpy raises \<open>ValueError\<close> when it does not broadcast.
\<close>

definition set_slice :: "'v ndarray \<Rightarrow> nat \<Rightarrow> nat \<Rightarrow> 'v ndarray \<Rightarrow> error + 'v ndarray" where
  "set_slice y a b v =
     (case broadcast v (slice_rows a b y) of
        None \<Rightarrow> Inl (ValueError ''could not broadcast input array'')
      | Some v' \<Rightarrow> Inr (write_rows y a v'))"

text \<open>
  \<open>float(n) / batch_size\<close> converts \<open>batch_size\<close> to a float and raises \<open>OverflowError\<close>
  for an integer that rounds beyond the largest double: from \<open>2^1024 - 2^970\<close> on.
\<close>

definition float_overflow :: int where
  "float_overflow = 2 ^ 1024 - 2 ^ 970"

text \<open>
  \<open>int(np.ceil(float(n) / batch_size))\<close> for a row count \<open>n\<close> and a positive batch size
  below \<open>float_overflow\<close>. For \<open>n < 2^53\<close> the row count is a float exactly and the
  rounded quotient has the ceiling of the exact one; the model computes that ceiling on
  integers, and what is proved about the batches is proved for such \<open>n\<close>.
\<close>

definition ceil_div :: "nat \<Rightarrow> nat \<Rightarrow> nat" where
  "ceil_div n b = (n + b - 1) div b"

text \<open>The branch \<open>batch_size is None\<close>: \<open>super().predict(X).astype(self._output_dtype)\<close>.\<close>

definition predict_nobatch :: "('x, 'p, 'v) fitted \<Rightarrow> 'x list \<Rightarrow> 'v ndarray" where
  "predict_nobatch P X = map_array (astype P) (super_predict P X)"

text \<open>
  The loop \<open>for k in range(...)\<close> over the batch indices still to do, threading \<open>y\<close>:
  \<^verbatim>\<open>
      batch_from = k * batch_size
      batch_to = min([(k + 1) * batch_size, X.shape[0]])
      y[batch_from:batch_to] = self.predict(X[batch_from:batch_to], batch_size=None)
  \<close>
\<close>

fun predict_batches ::
  "('x, 'p, 'v) fitted \<Rightarrow> 'x list \<Rightarrow> nat \<Rightarrow> nat list \<Rightarrow> 'v ndarray \<Rightarrow> error + 'v ndarray" where
  "predict_batches P X batch_size [] y = Inr y"
| "predict_batches P X batch_size (k # ks) y =
     (let batch_from = k * batch_size;
          batch_to = min ((k + 1) * batch_size) (length X)
      in case set_slice y batch_from batch_to
                (predict_nobatch P (slice batch_from batch_to X)) of
           Inl e \<Rightarrow> Inl e
         | Inr y' \<Rightarrow> predict_batches P X batch_size ks y')"

text \<open>
  \<open>BasePipeline.predict(X, batch_size)\<close>. With a batch size the method reads \<open>X.shape\<close>,
  which a plain list does not have, before it computes the number of batches.
\<close>

definition predict ::
  "('x, 'p, 'v::zero) fitted \<Rightarrow> 'x array_like \<Rightarrow> pyval \<Rightarrow> error + 'v ndarray" where
  "predict P X batch_size =
     (case batch_size of
        PyNone \<Rightarrow> Inr (predict_nobatch P (rows_of X))
      | PyInt b \<Rightarrow>
          if b \<le> 0 then Inl (Exception ''batch_size must be a positive integer'')
          else
            (case X of
               PyList rows \<Rightarrow>
                 Inl (AttributeError ([CHR 0x27] @ ''list'' @ [CHR 0x27]
                        @ '' object has no attribute '' @ [CHR 0x27] @ ''shape'' @ [CHR 0x27]))
             | NdArray rows \<Rightarrow>
                 (let y = np_zeros (length rows) (num_targets P)
                  in if float_overflow \<le> b
                     then Inl (OverflowError ''int too large to convert to float'')
                     else predict_batches P rows (nat b)
                            [0 ..< max 1 (ceil_div (length rows) (nat b))] y))
      | _ \<Rightarrow> Inl (Exception ''batch_size must be a positive integer''))"

text \<open>
  The spec's words for batching, to compare the loop with: the contiguous row ranges of
  size \<open>b\<close> of \<open>X\<close>, in order (the last one may be shorter), and the results concatenated
  in the original row order, from the empty array of the shape that \<open>num_targets\<close>
  declares.
\<close>

function contiguous_ranges :: "nat \<Rightarrow> 'a list \<Rightarrow> 'a list list" where
  "contiguous_ranges b xs =
     (if b = 0 \<or> xs = [] then [] else take b xs # contiguous_ranges b (drop b xs))"
  by pat_completeness auto
termination
  by (relation "measure (\<lambda>(b, xs). length xs)") auto

declare contiguous_ranges.simps [simp del]

fun append_rows :: "'v ndarray \<Rightarrow> 'v ndarray \<Rightarrow> 'v ndarray" where
  "append_rows (Array1 xs) (Array1 ys) = Array1 (xs @ ys)"
| "append_rows (Array2 w xs) (Array2 w' ys) = Array2 w (xs @ ys)"
| "append_rows a b = a"

definition concatenate :: "nat \<Rightarrow> 'v::zero ndarray list \<Rightarrow> 'v ndarray" where
  "concatenate t arrays = foldr append_rows arrays (np_zeros 0 t)"

text \<open>
  An array of \<open>n\<close> rows in the shape that \<open>num_targets = t\<close> declares: \<open>(n,)\<close> for \<open>t = 1\<close>,
  \<open>(n, t)\<close> otherwise.
\<close>

fun has_shape :: "'v ndarray \<Rightarrow> nat \<Rightarrow> nat \<Rightarrow> bool" where
  "has_shape (Array1 xs) n t = (t = 1 \<and> length xs = n)"
| "has_shape (Array2 w rows) n t =
     (t \<noteq> 1 \<and> w = t \<and> length rows = n \<and> list_all (\<lambda>r. length r = w) rows)"

section \<open>Dictionaries, strings\<close>

text \<open>
  A Python \<open>dict\<close> with string keys, as the list of its items in iteration order.
  \<open>k in d\<close> is \<open>map_of d k \<noteq> None\<close>, \<open>d.get(k)\<close> is \<open>map_of d k\<close>, and \<open>d[k] = v\<close> is
  \<open>AList.update k v d\<close>: it overwrites the value of a key that is there and appends a new
  key at the end.
\<close>

type_synonym 'v dict = "(string \<times> 'v) list"

text \<open>\<open>s.startswith(p)\<close>.\<close>

fun startswith :: "string \<Rightarrow> string \<Rightarrow> bool" where
  "startswith s [] = True"
| "startswith [] (p # ps) = False"
| "startswith (c # s) (p # ps) = (c = p \<and> startswith s ps)"

text \<open>\<open>s.replace(old, new, 1)\<close>: the leftmost occurrence of \<open>old\<close> in \<open>s\<close> is replaced.\<close>

fun replace1 :: "string \<Rightarrow> string \<Rightarrow> string \<Rightarrow> string" where
  "replace1 old new [] = (if old = [] then new else [])"
| "replace1 old new (c # s) =
     (if startswith (c # s) old then new @ drop (length old) (c # s)
      else c # replace1 old new s)"

text \<open>\<open>sep.join(xs)\<close>.\<close>

fun join :: "string \<Rightarrow> string list \<Rightarrow> string" where
  "join sep [] = []"
| "join sep [x] = x"
| "join sep (x # y # ys) = x @ sep @ join sep (y # ys)"

text \<open>Decimal digits of a natural number and of an integer, as \<open>repr\<close> prints them.\<close>

function show_nat :: "nat \<Rightarrow> string" where
  "show_nat n =
     (if n < 10 then [''0123456789'' ! n]
      else show_nat (n div 10) @ [''0123456789'' ! (n mod 10)])"
  by pat_completeness auto
termination
  by (relation "measure (\<lambda>n. n)") auto

definition show_int :: "int \<Rightarrow> string" where
  "show_int i = (if i < 0 then ''-'' @ show_nat (nat (- i)) else show_nat (nat i))"

section \<open>Configurations, steps and the pipeline object\<close>

text \<open>
  A \<open>ConfigSpace.Configuration\<close>: the space it belongs to and its items, in the order in
  which iterating over the configuration yields the hyperparameter names, each with the
  value \<open>configuration[name]\<close> (\<open>None\<close> for an inactive hyperparameter). The type \<open>'cs\<close>
  of configuration spaces is left open; \<open>==\<close> on spaces is equality of \<open>'cs\<close>.
\<close>

record 'cs configuration =
  configuration_space :: 'cs
  config_values :: "pyval dict"

text \<open>
  A step's node is an \<open>AutoSklearnChoice\<close>, an \<open>AutoSklearnComponent\<close>, or anything else.
\<close>

datatype node_kind = Choice | Component | Other

text \<open>
  Modelled from the spec: the node classes of \<open>components/base.py\<close> are not among the
  sources. A node answers queries over static metadata (\<open>descr\<close>, of an open type), and
  holds the sub-configuration last applied to it through its \<open>set_hyperparameters\<close>
  capability.
\<close>

record ('d, 'cs) node =
  kind :: node_kind
  descr :: 'd
  applied :: "'cs configuration option"

definition node_set_hyperparameters ::
  "('d, 'cs) node \<Rightarrow> 'cs configuration \<Rightarrow> ('d, 'cs) node" where
  "node_set_hyperparameters node sub_configuration =
     node\<lparr>applied := Some sub_configuration\<rparr>"

type_synonym ('d, 'cs) steps = "(string \<times> ('d, 'cs) node) list"

text \<open>
  The compatibility matrix of \<open>get_match_array\<close>: an n-dimensional integer array, by its
  shape and its cells in row-major order. \<open>np.sum\<close> and \<open>np.size\<close> read the cells only.
\<close>

record match_array =
  shape :: "nat list"
  cells :: "int list"

definition np_sum :: "match_array \<Rightarrow> int" where
  "np_sum m = sum_list (cells m)"

definition np_size :: "match_array \<Rightarrow> int" where
  "np_size m = int (length (cells m))"

text \<open>The number of true (non-zero) entries, and what makes the matrix an indicator.\<close>

definition true_count :: "match_array \<Rightarrow> int" where
  "true_count m = int (length (filter (\<lambda>c. c \<noteq> 0) (cells m)))"

definition is_binary :: "match_array \<Rightarrow> bool" where
  "is_binary m = list_all (\<lambda>c. c = 0 \<or> c = 1) (cells m)"

text \<open>
  What the module calls and does not define, taken as parameters:
  \<^item> of a node: \<open>node.get_hyperparameter_search_space(dataset_properties, include)\<close>;
  \<^item> of ConfigSpace: the constructor \<open>Configuration(space, values)\<close>, which validates the
    values, \<open>cs.add_configuration_space(name, sub_space)\<close>,
    \<open>cs.get_default_configuration()\<close>, and \<open>str(cs).splitlines()\<close>;
  \<^item> of \<open>create_searchspace_util\<close>: \<open>get_match_array\<close>, \<open>find_active_choices\<close>,
    \<open>add_forbidden\<close>;
  \<^item> \<open>difflib.unified_diff\<close> and sklearn's \<open>check_random_state\<close>;
  \<^item> of the subclass: \<open>_get_pipeline()\<close>, \<open>get_hyperparameter_search_space(include,
    exclude, dataset_properties)\<close> and the class name. The subclass method is handed the
    caller's mapping object, so it returns, beside its result, the mapping as the call
    leaves it.
\<close>

record ('d, 'cs, 'r) env =
  node_space :: "'d \<Rightarrow> pyval dict \<Rightarrow> string list option \<Rightarrow> 'cs"
  new_Configuration :: "'cs \<Rightarrow> pyval dict \<Rightarrow> error + 'cs configuration"
  add_configuration_space :: "'cs \<Rightarrow> string \<Rightarrow> 'cs \<Rightarrow> error + 'cs"
  get_default_configuration :: "'cs \<Rightarrow> 'cs configuration"
  str_splitlines :: "'cs \<Rightarrow> string list"
  get_match_array ::
    "('d, 'cs) steps \<Rightarrow> pyval dict \<Rightarrow> string list dict \<Rightarrow> string list dict \<Rightarrow> match_array"
  find_active_choices ::
    "match_array \<Rightarrow> 'd \<Rightarrow> nat \<Rightarrow> pyval dict \<Rightarrow> string list option \<Rightarrow> string list option
     \<Rightarrow> string list"
  add_forbidden ::
    "'cs \<Rightarrow> ('d, 'cs) steps \<Rightarrow> match_array \<Rightarrow> pyval dict \<Rightarrow> string list dict
     \<Rightarrow> string list dict \<Rightarrow> 'cs"
  unified_diff :: "string list \<Rightarrow> string list \<Rightarrow> string list"
  check_random_state :: "pyval \<Rightarrow> error + 'r"
  get_pipeline :: "error + ('d, 'cs) steps"
  get_hyperparameter_search_space ::
    "string list dict option \<Rightarrow> string list dict option \<Rightarrow> pyval dict option
     \<Rightarrow> (error + 'cs) \<times> pyval dict option"
  class_name :: string

text \<open>
  The attributes of a \<open>BasePipeline\<close> object. A name cannot end in an underscore
  here: \<open>dataset_properties_attr\<close> is \<open>self.dataset_properties_\<close> and
  \<open>configuration_attr\<close> is \<open>self.configuration_\<close>, set by \<open>__init__\<close>;
  \<open>configuration\<close> is \<open>self.configuration\<close>, set by \<open>set_hyperparameters\<close>. An
  attribute not yet set is \<open>None\<close>.
\<close>

record ('d, 'cs, 'r) pipeline =
  steps :: "('d, 'cs) steps"
  dataset_properties_attr :: "pyval dict"
  configuration_attr :: "'cs configuration option"
  configuration :: "'cs configuration option"
  random_state :: "'r option"

section \<open>Routing a flat configuration to the steps\<close>

text \<open>
  The inner loop of \<open>set_hyperparameters\<close>, for one step:
  \<^verbatim>\<open>
      sub_config_dict = {}
      for param in configuration:
          if param.startswith('%s:' % node_name):
              value = configuration[param]
              new_name = param.replace('%s:' % node_name, '', 1)
              sub_config_dict[new_name] = value
  \<close>
\<close>

definition sub_config_dict :: "string \<Rightarrow> pyval dict \<Rightarrow> pyval dict" where
  "sub_config_dict node_name values =
     fold (\<lambda>(param, value) d.
             if startswith param (node_name @ '':'')
             then AList.update (replace1 (node_name @ '':'') [] param) value d
             else d)
          values []"

text \<open>
  The outer loop over \<open>self.steps\<close>. The nodes are changed in place, so the steps come
  back as the loop leaves them, with the exception that stopped it, if any.
\<close>

fun set_steps ::
  "('d, 'cs, 'r) env \<Rightarrow> pyval dict \<Rightarrow> 'cs configuration \<Rightarrow> ('d, 'cs) steps
   \<Rightarrow> ('d, 'cs) steps \<times> error option" where
  "set_steps E dp cfg [] = ([], None)"
| "set_steps E dp cfg ((node_name, node) # rest) =
     (let sub_configuration_space = node_space E (descr node) dp None
      in case new_Configuration E sub_configuration_space
                (sub_config_dict node_name (config_values cfg)) of
           Inl e \<Rightarrow> ((node_name, node) # rest, Some e)
         | Inr sub_configuration \<Rightarrow>
             if kind node = Choice \<or> kind node = Component
             then (case set_steps E dp cfg rest of
                     (rest', e) \<Rightarrow>
                       ((node_name, node_set_hyperparameters node sub_configuration) # rest', e))
             else ((node_name, node) # rest, Some (NotImplementedError ''Not supported yet!'')))"

text \<open>\<open>BasePipeline.set_hyperparameters(configuration)\<close>: the object afterwards, and the
  exception raised, if any.\<close>

definition set_hyperparameters ::
  "('d, 'cs, 'r) env \<Rightarrow> ('d, 'cs, 'r) pipeline \<Rightarrow> 'cs configuration
   \<Rightarrow> ('d, 'cs, 'r) pipeline \<times> error option" where
  "set_hyperparameters E p cfg =
     (case set_steps E (dataset_properties_attr p) cfg (steps p) of
        (steps', e) \<Rightarrow> (p\<lparr>steps := steps', configuration := Some cfg\<rparr>, e))"

section \<open>Construction\<close>

datatype 'cs config_arg = NoConfig | DictConfig "pyval dict" | ConfigObj "'cs configuration"

text \<open>The message of the \<open>ValueError\<close> for a configuration of another space.\<close>

definition mismatch_message :: "('d, 'cs, 'r) env \<Rightarrow> 'cs \<Rightarrow> 'cs \<Rightarrow> string" where
  "mismatch_message E cs cs' =
     ''Configuration passed does not come from the same configuration space. Differences are: ''
     @ join [CHR 0x0A] (unified_diff E (str_splitlines E cs) (str_splitlines E cs'))"

text \<open>
  The end of \<open>__init__\<close>: \<open>self.set_hyperparameters(self.configuration_)\<close>, then the random
  state, \<open>check_random_state(1)\<close> when none was given.
\<close>

definition finish_init ::
  "('d, 'cs, 'r) env \<Rightarrow> ('d, 'cs, 'r) pipeline \<Rightarrow> 'cs configuration \<Rightarrow> pyval
   \<Rightarrow> error + ('d, 'cs, 'r) pipeline" where
  "finish_init E p cfg seed =
     (case set_hyperparameters E (p\<lparr>configuration_attr := Some cfg\<rparr>) cfg of
        (p', Some e) \<Rightarrow> Inl e
      | (p', None) \<Rightarrow>
          (case (if seed = PyNone then check_random_state E (PyInt 1)
                 else check_random_state E seed) of
             Inl e \<Rightarrow> Inl e
           | Inr r \<Rightarrow> Inr (p'\<lparr>random_state := Some r\<rparr>)))"

text \<open>
  \<open>BasePipeline.__init__(config, pipeline, dataset_properties, include, exclude,
  random_state)\<close>. \<open>self.dataset_properties_\<close> is the caller's mapping object itself (a new
  empty one when \<open>None\<close> was passed), so it holds what the search-space construction left
  in that object. The two debugging \<open>print\<close> calls before the \<open>ValueError\<close> are left out.
\<close>

definition init ::
  "('d, 'cs, 'r) env \<Rightarrow> 'cs config_arg \<Rightarrow> ('d, 'cs) steps option \<Rightarrow> pyval dict option
   \<Rightarrow> string list dict option \<Rightarrow> string list dict option \<Rightarrow> pyval
   \<Rightarrow> error + ('d, 'cs, 'r) pipeline" where
  "init E config pipeline dataset_properties include exclude seed =
     (case (case pipeline of None \<Rightarrow> get_pipeline E | Some given \<Rightarrow> Inr given) of
        Inl e \<Rightarrow> Inl e
      | Inr steps0 \<Rightarrow>
          (case get_hyperparameter_search_space E include exclude dataset_properties of
             (Inl e, dp') \<Rightarrow> Inl e
           | (Inr cs, dp') \<Rightarrow>
               (let p0 = \<lparr>steps = steps0,
                          dataset_properties_attr =
                            (case dataset_properties of
                               None \<Rightarrow> []
                             | Some d \<Rightarrow> (case dp' of None \<Rightarrow> d | Some d' \<Rightarrow> d')),
                          configuration_attr = None, configuration = None,
                          random_state = None\<rparr>;
                    checked = (\<lambda>c. if cs \<noteq> configuration_space c
                                    then Inl (ValueError
                                           (mismatch_message E cs (configuration_space c)))
                                    else finish_init E p0 c seed)
                in case config of
                     NoConfig \<Rightarrow> finish_init E p0 (get_default_configuration E cs) seed
                   | DictConfig d \<Rightarrow>
                       (case new_Configuration E cs d of
                          Inl e \<Rightarrow> Inl e
                        | Inr c \<Rightarrow> checked c)
                   | ConfigObj c \<Rightarrow> checked c)))"

section \<open>Building the search space\<close>

text \<open>
  The validation loops of \<open>_get_hyperparameter_search_space\<close>:
  \<^verbatim>\<open>
      keys = [pair[0] for pair in pipeline]
      for key in include:
          if key not in keys:
              raise ValueError('Invalid key in include: %s; should be one '
                               'of %s' % (key, keys))
  \<close>
  The first key, in the mapping's order, that is no step name.
\<close>

definition first_invalid_key :: "('d, 'cs) steps \<Rightarrow> 'a dict \<Rightarrow> string option" where
  "first_invalid_key pipeline selector =
     (let keys = map fst pipeline
      in find (\<lambda>key. key \<notin> set keys) (map fst selector))"

text \<open>
  The defaults written into the mapping that was passed in:
  \<^verbatim>\<open>
      if 'sparse' not in dataset_properties:
          dataset_properties['sparse'] = False
      if 'signed' not in dataset_properties:
          dataset_properties['signed'] = False
  \<close>
\<close>

definition apply_defaults :: "pyval dict \<Rightarrow> pyval dict" where
  "apply_defaults dataset_properties =
     (let dp1 = (if map_of dataset_properties ''sparse'' = None
                 then AList.update ''sparse'' (PyBool False) dataset_properties
                 else dataset_properties)
      in if map_of dp1 ''signed'' = None
         then AList.update ''signed'' (PyBool False) dp1
         else dp1)"

text \<open>
  The loop \<open>for node_idx, n_ in enumerate(pipeline)\<close> that adds every step's space to
  \<open>cs\<close>, from index \<open>node_idx\<close> on.
\<close>

fun add_steps ::
  "('d, 'cs, 'r) env \<Rightarrow> match_array \<Rightarrow> pyval dict \<Rightarrow> string list dict \<Rightarrow> string list dict
   \<Rightarrow> 'cs \<Rightarrow> nat \<Rightarrow> ('d, 'cs) steps \<Rightarrow> error + 'cs" where
  "add_steps E matches dp include exclude cs node_idx [] = Inr cs"
| "add_steps E matches dp include exclude cs node_idx ((node_name, node) # rest) =
     (let is_choice = (kind node = Choice);
          sub_config_space =
            (if \<not> is_choice then node_space E (descr node) dp None
             else
               (let choices_list =
                      find_active_choices E matches (descr node) node_idx dp
                        (map_of include node_name) (map_of exclude node_name)
                in node_space E (descr node) dp (Some choices_list)))
      in case add_configuration_space E cs node_name sub_config_space of
           Inl e \<Rightarrow> Inl e
         | Inr cs' \<Rightarrow> add_steps E matches dp include exclude cs' (Suc node_idx) rest)"

text \<open>
  The message of the second assertion:
  \<open>"'matches' is not binary; %s <= %d, %s" % (str(np.sum(matches)), np.size(matches),
  str(matches.shape))\<close>; \<open>str_shape\<close> prints the shape tuple.
\<close>

definition str_shape :: "nat list \<Rightarrow> string" where
  "str_shape dims =
     (case dims of
        [n] \<Rightarrow> ''('' @ show_nat n @ '',)''
      | _ \<Rightarrow> ''('' @ join '', '' (map show_nat dims) @ '')'')"

definition not_binary_message :: "match_array \<Rightarrow> string" where
  "not_binary_message matches =
     [CHR 0x27] @ ''matches'' @ [CHR 0x27] @ '' is not binary; '' @ show_int (np_sum matches)
     @ '' <= '' @ show_int (np_size matches) @ '', '' @ str_shape (shape matches)"

text \<open>
  The function from the defaults on, for valid selectors and a mapping \<open>dataset_properties\<close>:
  the defaults, the matrix, the two assertions, the steps' spaces and the forbidden
  clauses. Beside the result it returns the mapping object as it now is.
\<close>

definition build_search_space ::
  "('d, 'cs, 'r) env \<Rightarrow> 'cs \<Rightarrow> pyval dict \<Rightarrow> string list dict \<Rightarrow> string list dict
   \<Rightarrow> ('d, 'cs) steps \<Rightarrow> (error + 'cs) \<times> pyval dict" where
  "build_search_space E cs dataset_properties exclude include pipeline =
     (let dp = apply_defaults dataset_properties;
          matches = get_match_array E pipeline dp include exclude
      in if \<not> (np_sum matches \<noteq> 0)
         then (Inl (AssertionError ''No valid pipeline found.''), dp)
         else if \<not> (np_sum matches \<le> np_size matches)
         then (Inl (AssertionError (not_binary_message matches)), dp)
         else
           (case add_steps E matches dp include exclude cs 0 pipeline of
              Inl e \<Rightarrow> (Inl e, dp)
            | Inr cs' \<Rightarrow>
                (Inr (if np_sum matches < np_size matches
                      then add_forbidden E cs' pipeline matches dp include exclude
                      else cs'),
                 dp)))"

text \<open>
  \<open>BasePipeline._get_hyperparameter_search_space(cs, dataset_properties, exclude, include,
  pipeline)\<close>, under the name \<open>get_hyperparameter_search_space_impl\<close> (a name cannot
  start with an underscore here). The mapping \<open>dataset_properties\<close> is the caller's object: the second component
  is that object after the call. \<open>None\<close> for it is a \<open>TypeError\<close> at the first \<open>in\<close>.
\<close>

definition get_hyperparameter_search_space_impl ::
  "('d, 'cs, 'r) env \<Rightarrow> 'cs \<Rightarrow> pyval dict option \<Rightarrow> string list dict option
   \<Rightarrow> string list dict option \<Rightarrow> ('d, 'cs) steps \<Rightarrow> (error + 'cs) \<times> pyval dict option" where
  "get_hyperparameter_search_space_impl E cs dataset_properties exclude include pipeline =
     (let include = (case include of None \<Rightarrow> [] | Some i \<Rightarrow> i);
          keys = map fst pipeline
      in case first_invalid_key pipeline include of
           Some key \<Rightarrow> (Inl (InvalidKey ''include'' key keys), dataset_properties)
         | None \<Rightarrow>
             (let exclude = (case exclude of None \<Rightarrow> [] | Some x \<Rightarrow> x)
              in case first_invalid_key pipeline exclude of
                   Some key \<Rightarrow> (Inl (InvalidKey ''exclude'' key keys), dataset_properties)
                 | None \<Rightarrow>
                     (case dataset_properties of
                        None \<Rightarrow>
                          (Inl (TypeError ''argument of type 'NoneType' is not iterable''), None)
                      | Some d \<Rightarrow>
                          (case build_search_space E cs d exclude include pipeline of
                             (r, d') \<Rightarrow> (r, Some d')))))"

section \<open>The textual representation\<close>

text \<open>
  \<open>repr(v)\<close> and \<open>str(v)\<close>. A string is quoted with single quotes; the names and values
  of hyperparameters and dataset properties hold no quote, backslash or control
  character, which \<open>repr\<close> would escape.
\<close>

fun py_repr :: "pyval \<Rightarrow> string" where
  "py_repr PyNone = ''None''"
| "py_repr (PyBool b) = (if b then ''True'' else ''False'')"
| "py_repr (PyInt i) = show_int i"
| "py_repr (PyFloat s) = s"
| "py_repr (PyStr s) = [CHR 0x27] @ s @ [CHR 0x27]"

fun py_str :: "pyval \<Rightarrow> string" where
  "py_str (PyStr s) = s"
| "py_str v = py_repr v"

text \<open>\<open>'%s' % d\<close> for a dict \<open>d\<close> with string keys: \<open>{'k1': v1, 'k2': v2}\<close>, in the dict's order.\<close>

definition str_dict :: "pyval dict \<Rightarrow> string" where
  "str_dict d =
     ''{'' @ join '', '' (map (\<lambda>(k, v). py_repr (PyStr k) @ '': '' @ py_repr v) d) @ ''}''"

text \<open>
  The loop that collects the hyperparameters whose value is not \<open>None\<close> into the dict
  \<open>configuration\<close> (\<open>config_dict\<close> below: \<open>configuration\<close> names the attribute here).
\<close>

definition active_values :: "pyval dict \<Rightarrow> pyval dict" where
  "active_values values =
     fold (\<lambda>(hp_name, value) d. if value \<noteq> PyNone then AList.update hp_name value d else d)
          values []"

text \<open>
  \<open>configuration_string\<close>: the entries \<open>'name': repr(value)\<close> for \<open>hp_name in
  sorted(configuration)\<close>.
\<close>

definition configuration_string :: "pyval dict \<Rightarrow> string" where
  "configuration_string config_dict =
     ''config={'' @ [CHR 0x0A] @ ''  ''
     @ join ('','' @ [CHR 0x0A] @ ''  '')
         (map (\<lambda>hp_name.
                 [CHR 0x27] @ hp_name @ [CHR 0x27] @ '': ''
                 @ (case map_of config_dict hp_name of
                      Some value \<Rightarrow> py_repr value
                    | None \<Rightarrow> []))
              (sort (map fst config_dict)))
     @ ''}''"

text \<open>
  \<open>dataset_properties_string\<close>: the loop over \<open>enumerate(self.dataset_properties_.items())\<close>;
  \<open>first\<close> says that \<open>i\<close> is \<open>0\<close>.
\<close>

fun dataset_properties_items :: "bool \<Rightarrow> pyval dict \<Rightarrow> string" where
  "dataset_properties_items first [] = []"
| "dataset_properties_items first ((k, v) # items) =
     (if \<not> first then '','' @ [CHR 0x0A] @ ''  '' else [CHR 0x0A] @ ''  '')
     @ (case v of
          PyStr s \<Rightarrow> [CHR 0x27] @ k @ [CHR 0x27] @ '': '' @ [CHR 0x27] @ s @ [CHR 0x27]
        | _ \<Rightarrow> [CHR 0x27] @ k @ [CHR 0x27] @ '': '' @ py_str v)
     @ dataset_properties_items False items"

text \<open>
  \<open>BasePipeline.__repr__\<close>, for an object whose \<open>configuration_\<close> is set and populated. With
  dataset properties the result is formatted from the dict \<open>configuration\<close>, without them
  from \<open>configuration_string\<close>, as the source has it.
\<close>

definition repr_pipeline ::
  "('d, 'cs, 'r) env \<Rightarrow> ('d, 'cs, 'r) pipeline \<Rightarrow> error + string" where
  "repr_pipeline E p =
     (case configuration_attr p of
        None \<Rightarrow> Inl (AttributeError ''configuration_'')
      | Some c \<Rightarrow>
          (let config_dict = active_values (config_values c);
               config_string = configuration_string config_dict
           in if length (dataset_properties_attr p) > 0
              then
                (let dataset_properties_string =
                       ''dataset_properties={''
                       @ dataset_properties_items True (dataset_properties_attr p) @ ''}''
                 in Inr (class_name E @ ''('' @ str_dict config_dict @ '','' @ [CHR 0x0A]
                         @ dataset_properties_string @ '')''))
              else Inr (class_name E @ ''('' @ config_string @ '')'')))"

section \<open>A small pipeline to run the definitions on\<close>

text \<open>
  Two steps, an imputation component and a classifier choice. A configuration space is
  the list of its hyperparameter names; adding a sub-space under a step name appends its
  names with the prefix \<open>name:\<close>. The matrix has one legal combination out of two.
\<close>

definition example_steps :: "(string, string list) steps" where
  "example_steps =
     [(''imputation'', \<lparr>kind = Component, descr = ''imputation'', applied = None\<rparr>),
      (''classifier'', \<lparr>kind = Choice, descr = ''classifier'', applied = None\<rparr>)]"

definition example_space :: "string list" where
  "example_space = [''imputation:strategy'', ''classifier:__choice__'']"

definition example_env :: "(string, string list, int) env" where
  "example_env =
     \<lparr>node_space = (\<lambda>d dp inc. if d = ''imputation'' then [''strategy''] else [''__choice__'']),
      new_Configuration = (\<lambda>cs vals. Inr \<lparr>configuration_space = cs, config_values = vals\<rparr>),
      add_configuration_space = (\<lambda>cs name sub. Inr (cs @ map (\<lambda>h. name @ '':'' @ h) sub)),
      get_default_configuration =
        (\<lambda>cs. \<lparr>configuration_space = cs, config_values = map (\<lambda>h. (h, PyInt 0)) cs\<rparr>),
      str_splitlines = (\<lambda>cs. cs),
      get_match_array = (\<lambda>pl dp inc exc. \<lparr>shape = [2], cells = [0, 1]\<rparr>),
      find_active_choices = (\<lambda>m d i dp inc exc. [''random_forest'']),
      add_forbidden = (\<lambda>cs pl m dp inc exc. cs),
      unified_diff = (\<lambda>a b. map (\<lambda>l. ''-'' @ l) a @ map (\<lambda>l. ''+'' @ l) b),
      check_random_state =
        (\<lambda>s. case s of PyInt i \<Rightarrow> Inr i | _ \<Rightarrow> Inl (ValueError ''cannot seed'')),
      get_pipeline = Inr example_steps,
      get_hyperparameter_search_space = (\<lambda>inc exc dp. (Inr example_space, dp)),
      class_name = ''BasePipeline''\<rparr>"

definition example_configuration :: "string list configuration" where
  "example_configuration =
     \<lparr>configuration_space = example_space,
      config_values = [(''imputation:strategy'', PyStr ''mean''),
                       (''classifier:__choice__'', PyStr ''random_forest'')]\<rparr>"

definition example_pipeline :: "(string, string list, int) pipeline" where
  "example_pipeline =
     \<lparr>steps = example_steps,
      dataset_properties_attr = [(''sparse'', PyBool False)],
      configuration_attr = Some example_configuration,
      configuration = None,
      random_state = None\<rparr>"

text \<open>
  The object that constructing with \<open>example_configuration\<close> and no seed builds.
\<close>

definition example_built :: "(string, string list, int) pipeline" where
  "example_built =
     \<lparr>steps =
        [(''imputation'',
          \<lparr>kind = Component, descr = ''imputation'',
             applied = Some \<lparr>configuration_space = [''strategy''],
                               config_values = [(''strategy'', PyStr ''mean'')]\<rparr>\<rparr>),
         (''classifier'',
          \<lparr>kind = Choice, descr = ''classifier'',
             applied = Some \<lparr>configuration_space = [''__choice__''],
                               config_values = [(''__choice__'', PyStr ''random_forest'')]\<rparr>\<rparr>)],
      dataset_properties_attr = [],
      configuration_attr = Some example_configuration,
      configuration = Some example_configuration,
      random_state = Some 1\<rparr>"

text \<open>
  The same object with a configuration that yields its names in the order \<open>b\<close>, \<open>a\<close>.
\<close>

definition unsorted_pipeline :: "(string, string list, int) pipeline" where
  "unsorted_pipeline =
     example_pipeline\<lparr>configuration_attr :=
       Some \<lparr>configuration_space = [''b'', ''a''],
             config_values = [(''b'', PyInt 1), (''a'', PyInt 2)]\<rparr>\<rparr>"

text \<open>
  Two fitted pipelines with one target. The first predicts row by row: each row's
  prediction is the row plus one. The second returns one row per input row as well, but
  each row's prediction is the number of rows it was given together with.
\<close>

definition rowwise_fitted :: "(nat, nat, int) fitted" where
  "rowwise_fitted =
     \<lparr>super_predict = (\<lambda>xs. Array1 (map (\<lambda>x. x + 1) xs)), astype = int, num_targets = 1\<rparr>"

definition batch_counting_fitted :: "(nat, nat, int) fitted" where
  "batch_counting_fitted =
     \<lparr>super_predict = (\<lambda>xs. Array1 (replicate (length xs) (length xs))), astype = int,
      num_targets = 1\<rparr>"

section \<open>Batched prediction is the concatenation over contiguous ranges\<close>

lemma broadcast_dim_same: "broadcast_dim (length xs) xs = Some xs"
  by (induction "length xs" xs rule: broadcast_dim.induct) auto

lemma those_broadcast_rows:
  "list_all (\<lambda>r. length r = t) rows \<Longrightarrow> those (map (broadcast_dim t) rows) = Some rows"
proof (induction rows)
  case Nil
  then show ?case by simp
next
  case (Cons r rows)
  then have "broadcast_dim t r = Some r" using broadcast_dim_same[of r] by auto
  then show ?case using Cons by simp
qed

lemma length_slice: "length (slice a b xs) = min (b - a) (length xs - a)"
  by (simp add: slice_def)

lemma set_slice_Array1:
  "length vs = length (slice a b ys) \<Longrightarrow>
   set_slice (Array1 ys) a b (Array1 vs) = Inr (Array1 (take a ys @ vs @ drop (a + length vs) ys))"
  using broadcast_dim_same[of vs] by (simp add: set_slice_def)

lemma set_slice_Array2:
  "list_all (\<lambda>r. length r = t) vs \<Longrightarrow> length vs = length (slice a b ys) \<Longrightarrow>
   set_slice (Array2 t ys) a b (Array2 t vs)
     = Inr (Array2 t (take a ys @ vs @ drop (a + length vs) ys))"
  using broadcast_dim_same[of vs] by (simp add: set_slice_def those_broadcast_rows)

lemma write_step:
  assumes lp: "length pre = min a n" and lv: "length v = min c n - a" and ac: "a \<le> c"
  shows "take a (pre @ replicate (n - a) z) @ v @ drop (a + length v) (pre @ replicate (n - a) z)
         = (pre @ v) @ replicate (n - c) z"
proof (cases "a \<le> n")
  case True
  then have l: "length pre = a" using lp by simp
  have "a + length v = min c n" using lv True ac by simp
  then have d: "drop (a + length v) (pre @ replicate (n - a) z) = replicate (n - c) z"
    using l True ac by (auto simp: min_def)
  show ?thesis using l d by simp
next
  case False
  then have "length pre = n" "v = []" using lp lv ac by auto
  then show ?thesis using False ac by simp
qed


lemma length_chunk: "length (slice a (min c (length X)) X) = min c (length X) - a"
  unfolding length_slice by arith

lemma done_length:
  assumes len: "\<And>xs. length (h xs) = length xs"
  shows "length (concat (map (\<lambda>j. h (slice (j * b) (min ((j + 1) * b) (length X)) X)) [0 ..< k]))
         = min (k * b) (length X)"
proof (induction k)
  case 0
  then show ?case by simp
next
  case (Suc k)
  have "length (h (slice (k * b) (min ((k + 1) * b) (length X)) X))
        = min ((k + 1) * b) (length X) - k * b"
    by (simp only: len length_chunk)
  then show ?case using Suc by (auto simp: min_def)
qed

lemma batches_generic:
  fixes K :: "'r list \<Rightarrow> 'v ndarray"
  assumes nob: "\<And>xs. predict_nobatch P xs = K (h xs)"
      and len: "\<And>xs. length (h xs) = length xs"
      and set: "\<And>ys a c xs. length (h xs) = length (slice a c ys) \<Longrightarrow>
                 set_slice (K ys) a c (K (h xs))
                   = Inr (K (take a ys @ h xs @ drop (a + length (h xs)) ys))"
  shows "predict_batches P X b [k ..< m]
           (K (concat (map (\<lambda>j. h (slice (j * b) (min ((j + 1) * b) (length X)) X)) [0 ..< k])
               @ replicate (length X - k * b) z))
         = Inr (K (concat (map (\<lambda>j. h (slice (j * b) (min ((j + 1) * b) (length X)) X))
                             [0 ..< max k m])
                   @ replicate (length X - max k m * b) z))"
proof (induction "m - k" arbitrary: k)
  case 0
  then show ?case by (simp add: max_def)
next
  case (Suc d)
  then have km: "k < m" by simp
  let ?n = "length X"
  let ?c = "\<lambda>j. h (slice (j * b) (min ((j + 1) * b) ?n) X)"
  let ?pre = "concat (map ?c [0 ..< k])"
  let ?y = "?pre @ replicate (?n - k * b) z"
  have lp: "length ?pre = min (k * b) ?n" by (rule done_length[OF len])
  have lv: "length (?c k) = min ((k + 1) * b) ?n - k * b"
    by (simp only: len length_chunk)
  have ly: "length ?y = ?n" using lp by (auto simp: min_def)
  have ls: "length (?c k) = length (slice (k * b) (min ((k + 1) * b) ?n) ?y)"
    unfolding lv length_slice ly by arith
  have st: "set_slice (K ?y) (k * b) (min ((k + 1) * b) ?n) (K (?c k))
            = Inr (K (take (k * b) ?y @ ?c k @ drop (k * b + length (?c k)) ?y))"
    by (rule set[OF ls])
  have ws: "take (k * b) ?y @ ?c k @ drop (k * b + length (?c k)) ?y
            = (?pre @ ?c k) @ replicate (?n - Suc k * b) z"
    using write_step[OF lp lv, where z = z] by simp
  have nx: "?pre @ ?c k = concat (map ?c [0 ..< Suc k])" by simp
  have IH: "predict_batches P X b [Suc k ..< m]
              (K (concat (map ?c [0 ..< Suc k]) @ replicate (?n - Suc k * b) z))
            = Inr (K (concat (map ?c [0 ..< max (Suc k) m])
                      @ replicate (?n - max (Suc k) m * b) z))"
  proof -
    have "d = m - Suc k" using Suc.hyps(2) by simp
    from Suc.hyps(1)[OF this] show ?thesis .
  qed
  have up: "[k ..< m] = k # [Suc k ..< m]" using km by (simp add: upt_conv_Cons)
  have mx: "max k m = max (Suc k) m" using km by simp
  have "predict_batches P X b (k # [Suc k ..< m]) (K ?y)
        = predict_batches P X b [Suc k ..< m]
            (K (take (k * b) ?y @ ?c k @ drop (k * b + length (?c k)) ?y))"
    by (simp only: predict_batches.simps Let_def nob st sum.case)
  also have "\<dots> = predict_batches P X b [Suc k ..< m]
            (K (concat (map ?c [0 ..< Suc k]) @ replicate (?n - Suc k * b) z))"
    by (simp only: ws nx)
  finally show ?case unfolding up[symmetric] mx using IH by (simp only:)
qed

lemma contiguous_ranges_Nil: "contiguous_ranges b [] = []"
  by (subst contiguous_ranges.simps) simp

lemma contiguous_ranges_Cons:
  "0 < b \<Longrightarrow> xs \<noteq> [] \<Longrightarrow>
   contiguous_ranges b xs = take b xs # contiguous_ranges b (drop b xs)"
  by (subst contiguous_ranges.simps) simp

lemma div_add_self_Suc: "0 < b \<Longrightarrow> (m + b) div b = Suc (m div (b::nat))"
  using div_add_self2[of b m] by simp

lemma ceil_div_step: "0 < b \<Longrightarrow> 0 < n \<Longrightarrow> ceil_div n b = Suc (ceil_div (n - b) b)"
proof -
  assume b: "0 < b" and n: "0 < n"
  show ?thesis
  proof (cases "b \<le> n")
    case True
    then have e: "n + b - 1 = (n - 1) + b" "n - b + b - 1 = n - 1" using b n by simp_all
    show ?thesis unfolding ceil_div_def e using div_add_self_Suc[OF b, of "n - 1"] by simp
  next
    case False
    then have e: "n + b - 1 = (n - 1) + b" "n - b = 0" using b n by simp_all
    have "(n - 1) div b = 0" using False n by simp
    then show ?thesis unfolding ceil_div_def e using div_add_self_Suc[OF b, of "n - 1"] b by simp
  qed
qed

lemma ceil_div_covers: "0 < b \<Longrightarrow> n \<le> ceil_div n b * b"
proof -
  assume b: "0 < b"
  have "n + b - 1 < (n + b - 1) div b * b + b"
    using b by (metis add.commute div_mult_mod_eq mod_less_divisor nat_add_left_cancel_less mult.commute)
  then show ?thesis using b by (simp add: ceil_div_def)
qed

lemma min_shift: "b \<le> (n::nat) \<Longrightarrow> min (m + b) (n - b) - m = min (m + b + b) n - (m + b)"
  by arith

lemma slice_drop:
  "b \<le> length X \<Longrightarrow>
   slice (j * b) (min ((j + 1) * b) (length (drop b X))) (drop b X)
   = slice (Suc j * b) (min ((Suc j + 1) * b) (length X)) X"
proof -
  assume le: "b \<le> length X"
  have a: "(j + 1) * b = j * b + b" "Suc j * b = j * b + b" "(Suc j + 1) * b = j * b + b + b"
    by simp_all
  show ?thesis
    unfolding slice_def a length_drop min_shift[OF le, of "j * b"] drop_drop ..
qed

lemma contiguous_ranges_slices:
  "0 < b \<Longrightarrow>
   contiguous_ranges b X
   = map (\<lambda>j. slice (j * b) (min ((j + 1) * b) (length X)) X) [0 ..< ceil_div (length X) b]"
proof (induction b X rule: contiguous_ranges.induct)
  case (1 b xs)
  show ?case
  proof (cases "xs = []")
    case True
    then show ?thesis using "1.prems" by (simp add: ceil_div_def contiguous_ranges_Nil)
  next
    case False
    let ?n = "length xs"
    let ?m = "ceil_div (?n - b) b"
    have n: "0 < ?n" using False by simp
    have cd: "ceil_div ?n b = Suc ?m" using ceil_div_step[OF "1.prems" n] .
    have IH: "contiguous_ranges b (drop b xs)
      = map (\<lambda>j. slice (j * b) (min ((j + 1) * b) (length (drop b xs))) (drop b xs)) [0 ..< ?m]"
      using "1.IH" False "1.prems" by simp
    have hd: "take b xs = slice (0 * b) (min ((0 + 1) * b) ?n) xs"
      by (simp add: slice_def min_def)
    have tl: "map (\<lambda>j. slice (j * b) (min ((j + 1) * b) (length (drop b xs))) (drop b xs)) [0 ..< ?m]
            = map (\<lambda>j. slice (j * b) (min ((j + 1) * b) ?n) xs) (map Suc [0 ..< ?m])"
    proof (cases "b \<le> ?n")
      case True
      show ?thesis unfolding map_map comp_def slice_drop[OF True] ..
    next
      case False
      then have "?m = 0" using "1.prems" by (simp add: ceil_div_def)
      then show ?thesis by simp
    qed
    have up: "[0 ..< Suc ?m] = 0 # map Suc [0 ..< ?m]"
      by (simp only: upt_conv_Cons[OF zero_less_Suc] map_Suc_upt)
    have "contiguous_ranges b xs = take b xs # contiguous_ranges b (drop b xs)"
      using False "1.prems" by (rule contiguous_ranges_Cons[rotated])
    also have "\<dots> = slice (0 * b) (min ((0 + 1) * b) ?n) xs
        # map (\<lambda>j. slice (j * b) (min ((j + 1) * b) ?n) xs) (map Suc [0 ..< ?m])"
      unfolding IH tl hd[symmetric] ..
    also have "\<dots> = map (\<lambda>j. slice (j * b) (min ((j + 1) * b) ?n) xs) [0 ..< Suc ?m]"
      unfolding up by (simp only: list.map)
    finally show ?thesis unfolding cd .
  qed
qed

lemma concatenate_wrapped:
  fixes K :: "'r list \<Rightarrow> 'v::zero ndarray"
  assumes zeros: "np_zeros 0 t = K []"
      and app: "\<And>a c. append_rows (K a) (K c) = K (a @ c)"
  shows "concatenate t (map (\<lambda>xs. K (h xs)) xss) = K (concat (map h xss))"
  by (induction xss) (simp_all add: concatenate_def zeros app)

lemma predict_generic:
  fixes K :: "'r list \<Rightarrow> 'v::zero ndarray" and P :: "('x, 'p, 'v) fitted"
  assumes nob: "\<And>xs. predict_nobatch P xs = K (h xs)"
      and len: "\<And>xs. length (h xs) = length xs"
      and set: "\<And>ys a c xs. length (h xs) = length (slice a c ys) \<Longrightarrow>
                 set_slice (K ys) a c (K (h xs))
                   = Inr (K (take a ys @ h xs @ drop (a + length (h xs)) ys))"
      and zeros: "\<And>n. np_zeros n (num_targets P) = K (replicate n z)"
      and app: "\<And>a c. append_rows (K a) (K c) = K (a @ c)"
      and pos: "0 < b" and small: "b < float_overflow"
  shows "predict P (NdArray X) (PyInt b)
         = Inr (concatenate (num_targets P)
                  (map (predict_nobatch P) (contiguous_ranges (nat b) X)))"
proof -
  let ?n = "length X"
  let ?b = "nat b"
  let ?c = "\<lambda>j. h (slice (j * ?b) (min ((j + 1) * ?b) ?n) X)"
  let ?m = "max 1 (ceil_div ?n ?b)"
  have bpos: "0 < ?b" using pos by simp
  have inv: "predict_batches P X ?b [0 ..< ?m]
               (K (concat (map ?c [0 ..< 0]) @ replicate (?n - 0 * ?b) z))
             = Inr (K (concat (map ?c [0 ..< max 0 ?m]) @ replicate (?n - max 0 ?m * ?b) z))"
    by (rule batches_generic[OF nob len set])
  have "?n \<le> ceil_div ?n ?b * ?b" using bpos by (rule ceil_div_covers)
  also have "\<dots> \<le> ?m * ?b" by simp
  finally have cover: "?n - ?m * ?b = 0" by simp
  have run: "predict_batches P X ?b [0 ..< ?m] (K (replicate ?n z))
             = Inr (K (concat (map ?c [0 ..< ?m])))"
    using inv cover by simp
  have pred: "predict P (NdArray X) (PyInt b) = Inr (K (concat (map ?c [0 ..< ?m])))"
    using run pos small by (simp add: predict_def zeros Let_def)
  have ranges: "map h (contiguous_ranges ?b X) = map ?c [0 ..< ceil_div ?n ?b]"
    unfolding contiguous_ranges_slices[OF bpos] by (simp add: comp_def)
  have same: "concat (map ?c [0 ..< ?m]) = concat (map h (contiguous_ranges ?b X))"
  proof (cases "ceil_div ?n ?b = 0")
    case True
    then have "?n = 0" using ceil_div_covers[OF bpos, of ?n] by simp
    then have "h (slice 0 (min ?b ?n) X) = []" using len[of "slice 0 (min ?b ?n) X"]
      by (simp add: slice_def)
    then show ?thesis unfolding ranges using True by simp
  next
    case False
    then have "?m = ceil_div ?n ?b" by simp
    then show ?thesis unfolding ranges by simp
  qed
  have "concatenate (num_targets P) (map (predict_nobatch P) (contiguous_ranges ?b X))
        = concatenate (num_targets P) (map (\<lambda>xs. K (h xs)) (contiguous_ranges ?b X))"
  proof -
    have "predict_nobatch P = (\<lambda>xs. K (h xs))" by (rule ext) (rule nob)
    then show ?thesis by (simp only:)
  qed
  also have "\<dots> = K (concat (map h (contiguous_ranges ?b X)))"
    by (rule concatenate_wrapped) (use zeros[of 0] app in simp_all)
  finally show ?thesis using pred same by simp
qed

lemma map_array_append:
  "map_array g (append_rows a c) = append_rows (map_array g a) (map_array g c)"
  by (cases a; cases c) simp_all

lemma concatenate_additive:
  assumes add: "\<And>xs ys. nob (xs @ ys) = append_rows (nob xs) (nob ys)"
      and empty: "nob [] = np_zeros 0 t"
  shows "concatenate t (map nob xss) = nob (concat xss)"
proof (induction xss)
  case Nil
  then show ?case by (simp add: concatenate_def empty)
next
  case (Cons xs xss)
  have "concatenate t (map nob (xs # xss)) = append_rows (nob xs) (concatenate t (map nob xss))"
    by (simp add: concatenate_def)
  then show ?case using Cons add by simp
qed

lemma concat_contiguous_ranges: "0 < b \<Longrightarrow> concat (contiguous_ranges b xs) = xs"
proof (induction b xs rule: contiguous_ranges.induct)
  case (1 b xs)
  then show ?case
    by (cases "xs = []") (simp_all add: contiguous_ranges_Nil contiguous_ranges_Cons)
qed

lemma float_overflow_pos: "2 < float_overflow"
  by (simp add: float_overflow_def)

text \<open>
  C1, as the code has it. Let the inherited \<open>predict\<close> of the fitted steps return, for
  every input, one output row per input row in the shape that \<open>num_targets\<close> declares.
  Then for every array \<open>X\<close> (of fewer than \<open>2^53\<close> rows) and every positive integer batch
  size \<open>b\<close> that converts to a float, \<open>predict(X, batch_size=b)\<close> returns the unbatched
  predictions of the contiguous row ranges of size \<open>b\<close> of \<open>X\<close>, concatenated in the
  original row order. It is the array that \<open>predict(X, batch_size=None)\<close> returns whenever
  the inherited \<open>predict\<close> of rows stacked on rows is its prediction of the first stacked on
  its prediction of the second, as it is for a pipeline that predicts row by row.
\<close>

theorem predict_batched_is_concatenation:
  fixes P :: "('x, 'p, 'v::zero) fitted"
  assumes shape: "\<forall>xs. has_shape (super_predict P xs) (length xs) (num_targets P)"
      and pos: "0 < b"
      and small: "b < float_overflow"
      and rows: "length X < 2 ^ 53"
  shows "predict P (NdArray X) (PyInt b)
           = Inr (concatenate (num_targets P)
                    (map (predict_nobatch P) (contiguous_ranges (nat b) X)))
       \<and> ((\<forall>xs ys. super_predict P (xs @ ys)
                      = append_rows (super_predict P xs) (super_predict P ys))
            \<longrightarrow> predict P (NdArray X) (PyInt b) = predict P (NdArray X) PyNone)"
proof -
  let ?t = "num_targets P"
  have batched: "predict P (NdArray X) (PyInt b)
           = Inr (concatenate ?t (map (predict_nobatch P) (contiguous_ranges (nat b) X)))"
  proof (cases "?t = 1")
    case True
    define h where "h xs = map (astype P) (case super_predict P xs of Array1 l \<Rightarrow> l | _ \<Rightarrow> [])" for xs
    have sp: "super_predict P xs = Array1 (case super_predict P xs of Array1 l \<Rightarrow> l | _ \<Rightarrow> [])
              \<and> length (case super_predict P xs of Array1 l \<Rightarrow> l | _ \<Rightarrow> []) = length xs" for xs
      using shape[rule_format, of xs] True by (cases "super_predict P xs") simp_all
    have nob: "predict_nobatch P xs = Array1 (h xs)" for xs
      using sp[of xs] by (simp add: predict_nobatch_def h_def) (metis map_array.simps(1))
    have len: "length (h xs) = length xs" for xs using sp[of xs] by (simp add: h_def)
    show ?thesis
      by (rule predict_generic[where K = Array1 and h = h and z = 0, OF nob len _ _ _ pos small])
         (use True in \<open>simp_all add: set_slice_Array1 np_zeros_def\<close>)
  next
    case False
    define h where "h xs = map (map (astype P)) (case super_predict P xs of Array2 w l \<Rightarrow> l | _ \<Rightarrow> [])" for xs
    have sp: "super_predict P xs = Array2 ?t (case super_predict P xs of Array2 w l \<Rightarrow> l | _ \<Rightarrow> [])
              \<and> length (case super_predict P xs of Array2 w l \<Rightarrow> l | _ \<Rightarrow> []) = length xs
              \<and> list_all (\<lambda>r. length r = ?t) (case super_predict P xs of Array2 w l \<Rightarrow> l | _ \<Rightarrow> [])" for xs
      using shape[rule_format, of xs] False by (cases "super_predict P xs") simp_all
    have nob: "predict_nobatch P xs = Array2 ?t (h xs)" for xs
      using sp[of xs] by (simp add: predict_nobatch_def h_def) (metis map_array.simps(2))
    have len: "length (h xs) = length xs" for xs using sp[of xs] by (simp add: h_def)
    have wid: "list_all (\<lambda>r. length r = ?t) (h xs)" for xs
      using sp[of xs] by (simp add: h_def list_all_iff)
    show ?thesis
      by (rule predict_generic[where K = "Array2 ?t" and h = h and z = "replicate ?t 0",
            OF nob len _ _ _ pos small])
         (use False in \<open>simp_all add: set_slice_Array2 wid np_zeros_def\<close>)
  qed
  have "predict P (NdArray X) (PyInt b) = predict P (NdArray X) PyNone"
    if add: "\<forall>xs ys. super_predict P (xs @ ys)
                      = append_rows (super_predict P xs) (super_predict P ys)"
  proof -
    have a: "predict_nobatch P (xs @ ys) = append_rows (predict_nobatch P xs) (predict_nobatch P ys)"
      for xs ys
      using add by (simp add: predict_nobatch_def map_array_append)
    have e: "predict_nobatch P [] = np_zeros 0 ?t"
      using shape[rule_format, of "[]"]
      by (cases "super_predict P []") (simp_all add: predict_nobatch_def np_zeros_def)
    have "concatenate ?t (map (predict_nobatch P) (contiguous_ranges (nat b) X))
          = predict_nobatch P (concat (contiguous_ranges (nat b) X))"
      by (rule concatenate_additive[OF a e])
    then show ?thesis using batched pos by (simp add: concat_contiguous_ranges predict_def)
  qed
  then show ?thesis using batched by blast
qed

theorem predict_batched_is_concatenation_witness:
  "(0::int) < 2 \<and> 2 < float_overflow \<and> length [1, 2, 3 :: nat] < 2 ^ 53
   \<and> predict rowwise_fitted (NdArray [1, 2, 3]) (PyInt 2) = Inr (Array1 [2, 3, 4])
   \<and> predict rowwise_fitted (NdArray [1, 2, 3]) PyNone = Inr (Array1 [2, 3, 4])
   \<and> predict batch_counting_fitted (NdArray [1, 2, 3]) (PyInt 2) = Inr (Array1 [2, 2, 1])
   \<and> contiguous_ranges 2 [1, 2, 3 :: nat] = [[1, 2], [3]]"
proof -
  have r: "contiguous_ranges 2 [1, 2, 3 :: nat] = [[1, 2], [3]]"
    by (simp add: contiguous_ranges_Cons contiguous_ranges_Nil)
  have s1: "\<forall>xs. has_shape (super_predict rowwise_fitted xs) (length xs) (num_targets rowwise_fitted)"
    by (simp add: rowwise_fitted_def)
  have s2: "\<forall>xs. has_shape (super_predict batch_counting_fitted xs) (length xs)
              (num_targets batch_counting_fitted)"
    by (simp add: batch_counting_fitted_def)
  have a1: "\<forall>xs ys. super_predict rowwise_fitted (xs @ ys)
              = append_rows (super_predict rowwise_fitted xs) (super_predict rowwise_fitted ys)"
    by (simp add: rowwise_fitted_def)
  have b: "(0::int) < 2" "length [1, 2, 3 :: nat] < 2 ^ 53" by simp_all
  from predict_batched_is_concatenation[OF s1 b(1) float_overflow_pos b(2)] a1
  have p1: "predict rowwise_fitted (NdArray [1, 2, 3]) (PyInt 2)
            = Inr (concatenate (num_targets rowwise_fitted)
                     (map (predict_nobatch rowwise_fitted) (contiguous_ranges (nat 2) [1, 2, 3])))"
    and p2: "predict rowwise_fitted (NdArray [1, 2, 3]) (PyInt 2)
            = predict rowwise_fitted (NdArray [1, 2, 3]) PyNone"
    by blast+
  from predict_batched_is_concatenation[OF s2 b(1) float_overflow_pos b(2)]
  have p3: "predict batch_counting_fitted (NdArray [1, 2, 3]) (PyInt 2)
            = Inr (concatenate (num_targets batch_counting_fitted)
                     (map (predict_nobatch batch_counting_fitted) (contiguous_ranges (nat 2) [1, 2, 3])))"
    by blast
  have n: "nat 2 = 2" by simp
  have v1: "predict rowwise_fitted (NdArray [1, 2, 3]) (PyInt 2) = Inr (Array1 [2, 3, 4])"
    unfolding p1 n r
    by (simp add: concatenate_def predict_nobatch_def rowwise_fitted_def np_zeros_def)
  have v3: "predict batch_counting_fitted (NdArray [1, 2, 3]) (PyInt 2) = Inr (Array1 [2, 2, 1])"
    unfolding p3 n r
    by (simp add: concatenate_def predict_nobatch_def batch_counting_fitted_def np_zeros_def)
  show ?thesis using v1 v3 p2 r float_overflow_pos by simp
qed

text \<open>
  C1 as stated, for every fitted pipeline, fails for one whose prediction of a row
  depends on the rows it is given with: batches of two rows of a three-row input see
  two rows, two rows and one row, the unbatched call sees three.
\<close>

theorem batched_differs_counterexample:
  "predict batch_counting_fitted (NdArray [1, 2, 3]) (PyInt 2) = Inr (Array1 [2, 2, 1])
   \<and> predict batch_counting_fitted (NdArray [1, 2, 3]) PyNone = Inr (Array1 [3, 3, 3])
   \<and> predict batch_counting_fitted (NdArray [1, 2, 3]) (PyInt 2)
       \<noteq> predict batch_counting_fitted (NdArray [1, 2, 3]) PyNone"
  by (simp add: predict_def predict_nobatch_def batch_counting_fitted_def np_zeros_def
      float_overflow_def ceil_div_def set_slice_def slice_def Let_def upt_rec)

text \<open>
  Outside the amended claim: with a batch size, a plain list raises where the unbatched
  call predicts, and a batch size beyond the float range raises \<open>OverflowError\<close>.
\<close>

lemma predict_list_and_huge_batch_size:
  "predict rowwise_fitted (PyList [1, 2, 3]) (PyInt 2)
     = Inl (AttributeError ([CHR 0x27] @ ''list'' @ [CHR 0x27] @ '' object has no attribute ''
                            @ [CHR 0x27] @ ''shape'' @ [CHR 0x27]))
   \<and> predict rowwise_fitted (PyList [1, 2, 3]) PyNone = Inr (Array1 [2, 3, 4])
   \<and> predict rowwise_fitted (NdArray [1, 2, 3]) (PyInt (2 ^ 1024))
     = Inl (OverflowError ''int too large to convert to float'')"
  by (simp add: predict_def predict_nobatch_def rowwise_fitted_def float_overflow_def)

section \<open>The batch size check\<close>

lemma predict_batches_error:
  "predict_batches P X b ks y = Inl e \<Longrightarrow> e = ValueError ''could not broadcast input array''"
proof (induction ks arbitrary: y)
  case Nil
  then show ?case by simp
next
  case (Cons k ks)
  then show ?case
    by (auto simp: Let_def set_slice_def split: sum.splits option.splits)
qed

text \<open>
  C5. For every input \<open>X\<close>, \<open>predict(X, batch_size)\<close> raises the exception
  \<open>batch_size must be a positive integer\<close> if and only if \<open>batch_size\<close> is not \<open>None\<close> and
  is not an \<open>int\<close> greater than zero (a bool, a float or a string is no \<open>int\<close>); so a
  positive integer never raises it.
\<close>

theorem predict_invalid_batch_size_iff:
  fixes P :: "('x, 'p, 'v::zero) fitted"
  shows "predict P X batch_size = Inl (Exception ''batch_size must be a positive integer'')
     \<longleftrightarrow> batch_size \<noteq> PyNone \<and> \<not> (\<exists>n. batch_size = PyInt n \<and> 0 < n)"
proof (cases batch_size)
  case (PyInt n)
  show ?thesis
  proof (cases "0 < n")
    case True
    have "predict_batches P rows (nat n) ks y
          \<noteq> Inl (Exception ''batch_size must be a positive integer'')" for rows ks y
      using predict_batches_error by fastforce
    then show ?thesis using True PyInt
      by (cases X) (simp_all add: predict_def Let_def)
  next
    case False
    then show ?thesis using PyInt by (simp add: predict_def)
  qed
qed (simp_all add: predict_def)

section \<open>Routing and its idempotence\<close>

lemma startswith_iff: "startswith s p \<longleftrightarrow> (\<exists>t. s = p @ t)"
  by (induction s p rule: startswith.induct) auto

lemma replace1_prefix: "startswith s p \<Longrightarrow> replace1 p [] s = drop (length p) s"
  by (cases s) (auto simp: startswith_iff)

lemma fold_sub_config:
  assumes "distinct (map fst values)"
  shows "map_of (fold (\<lambda>(param, value) d.
             if startswith param pre
             then AList.update (replace1 pre [] param) value d
             else d) values d0) k
         = (case map_of values (pre @ k) of Some v \<Rightarrow> Some v | None \<Rightarrow> map_of d0 k)"
  using assms
proof (induction "values" arbitrary: d0)
  case Nil
  then show ?case by simp
next
  case (Cons pv vs)
  obtain p v where pv: "pv = (p, v)" by (cases pv)
  have dist: "distinct (map fst vs)" and notin: "p \<notin> fst ` set vs"
    using Cons.prems pv by auto
  have none: "map_of vs p = None" using notin by (simp add: map_of_eq_None_iff)
  show ?case
  proof (cases "startswith p pre")
    case True
    then obtain t where t: "p = pre @ t" by (auto simp: startswith_iff)
    have r: "replace1 pre [] p = t" using True t by (simp add: replace1_prefix)
    show ?thesis
      using Cons.IH[OF dist, of "AList.update t v d0"] True r t none pv
      by (auto simp: update_conv' split: option.splits)
  next
    case False
    then have "p \<noteq> pre @ k" by (auto simp: startswith_iff)
    then show ?thesis using Cons.IH[OF dist, of d0] False pv by simp
  qed
qed

lemma sub_config_dict_lookup:
  "distinct (map fst values) \<Longrightarrow>
   map_of (sub_config_dict node_name values) k = map_of values (node_name @ '':'' @ k)"
  by (simp add: sub_config_dict_def fold_sub_config split: option.splits)

lemma set_steps_length: "length (fst (set_steps E dp cfg st)) = length st"
  by (induction st) (auto simp: Let_def split: sum.splits prod.splits)

lemma set_steps_routes:
  "set_steps E dp cfg st = (st', None) \<Longrightarrow> i < length st \<Longrightarrow> st ! i = (node_name, node) \<Longrightarrow>
   length st' = length st \<and>
   (\<exists>sub. new_Configuration E (node_space E (descr node) dp None)
            (sub_config_dict node_name (config_values cfg)) = Inr sub
          \<and> st' ! i = (node_name, node_set_hyperparameters node sub))"
proof (induction st arbitrary: st' i)
  case Nil
  then show ?case by simp
next
  case (Cons a st)
  obtain n0 node0 where a: "a = (n0, node0)" by (cases a)
  from Cons.prems(1) a obtain sub0 rest' where
      c0: "new_Configuration E (node_space E (descr node0) dp None)
             (sub_config_dict n0 (config_values cfg)) = Inr sub0"
    and k0: "kind node0 = Choice \<or> kind node0 = Component"
    and r: "set_steps E dp cfg st = (rest', None)"
    and st': "st' = (n0, node_set_hyperparameters node0 sub0) # rest'"
    by (auto simp: Let_def split: sum.splits if_splits prod.splits)
  have len: "length rest' = length st"
    using set_steps_length[of E dp cfg st] r by simp
  show ?case
  proof (cases i)
    case 0
    then show ?thesis using Cons.prems(3) a c0 st' len by simp
  next
    case (Suc j)
    then show ?thesis using Cons.prems(2,3) a st' len Cons.IH[OF r, of j] by simp
  qed
qed

lemma set_steps_idem:
  "set_steps E dp cfg (fst (set_steps E dp cfg st)) = set_steps E dp cfg st"
proof (induction st)
  case Nil
  then show ?case by simp
next
  case (Cons a st)
  obtain n0 node0 where a: "a = (n0, node0)" by (cases a)
  show ?case
  proof (cases "new_Configuration E (node_space E (descr node0) dp None)
             (sub_config_dict n0 (config_values cfg))")
    case (Inl e)
    then show ?thesis using a by (simp add: Let_def)
  next
    case (Inr sub0)
    show ?thesis
    proof (cases "kind node0 = Choice \<or> kind node0 = Component")
      case True
      obtain rest' e where r: "set_steps E dp cfg st = (rest', e)" by (cases "set_steps E dp cfg st")
      have ih: "set_steps E dp cfg rest' = (rest', e)" using Cons.IH r by simp
      show ?thesis using a Inr True r ih
        by (simp add: Let_def node_set_hyperparameters_def)
    next
      case False
      then show ?thesis using a Inr by (simp add: Let_def)
    qed
  qed
qed

text \<open>
  C4. When \<open>set_hyperparameters\<close> applies a flat configuration without raising, then for
  every step: the step's sub-space is computed anew from the object's current dataset
  properties; the entries of the sub-dictionary are exactly the hyperparameters of the
  flat configuration whose names start with \<open>name:\<close>, under their names with that prefix
  stripped once, with their values; a \<open>Configuration\<close> is made of them against the
  sub-space; and it is applied to the step through the step's own \<open>set_hyperparameters\<close>.
\<close>

theorem set_hyperparameters_routes:
  assumes "distinct (map fst (config_values cfg))"
      and "set_hyperparameters E p cfg = (p', None)"
      and "i < length (steps p)"
      and "steps p ! i = (node_name, node)"
  shows "\<exists>sub. new_Configuration E (node_space E (descr node) (dataset_properties_attr p) None)
                 (sub_config_dict node_name (config_values cfg)) = Inr sub
              \<and> steps p' ! i = (node_name, node_set_hyperparameters node sub)
              \<and> (\<forall>k. map_of (sub_config_dict node_name (config_values cfg)) k
                       = map_of (config_values cfg) (node_name @ '':'' @ k))"
proof -
  obtain st' where s: "set_steps E (dataset_properties_attr p) cfg (steps p) = (st', None)"
    and p': "p' = p\<lparr>steps := st', configuration := Some cfg\<rparr>"
    using assms(2) by (auto simp: set_hyperparameters_def split: prod.splits)
  from set_steps_routes[OF s assms(3) assms(4)] p' sub_config_dict_lookup[OF assms(1)]
  show ?thesis by auto
qed

theorem set_hyperparameters_routes_witness:
  "distinct (map fst (config_values example_configuration))
   \<and> snd (set_hyperparameters example_env example_pipeline example_configuration) = None
   \<and> steps (fst (set_hyperparameters example_env example_pipeline example_configuration)) ! 1
       = (''classifier'',
          \<lparr>kind = Choice, descr = ''classifier'',
             applied = Some \<lparr>configuration_space = [''__choice__''],
                               config_values = [(''__choice__'', PyStr ''random_forest'')]\<rparr>\<rparr>)
   \<and> map_of (sub_config_dict ''classifier'' (config_values example_configuration))
         ''__choice__'' = Some (PyStr ''random_forest'')"
  using set_hyperparameters_routes
    [where E = example_env and p = example_pipeline and cfg = example_configuration
       and p' = "fst (set_hyperparameters example_env example_pipeline example_configuration)"
       and i = 1 and node_name = "''classifier''"
       and node = "\<lparr>kind = Choice, descr = ''classifier'', applied = None\<rparr>"]
  by (simp add: set_hyperparameters_def example_env_def example_pipeline_def
      example_configuration_def example_steps_def example_space_def sub_config_dict_def
      node_set_hyperparameters_def)

text \<open>
  C7. Calling \<open>set_hyperparameters\<close> a second time with the same configuration leaves the
  object (its steps with the sub-configuration applied to each, the stored configuration,
  the dataset properties) as the first call left it, and ends as the first call ended.
\<close>

theorem set_hyperparameters_idempotent:
  "set_hyperparameters E (fst (set_hyperparameters E p cfg)) cfg = set_hyperparameters E p cfg"
proof -
  obtain st' e where s: "set_steps E (dataset_properties_attr p) cfg (steps p) = (st', e)"
    by (cases "set_steps E (dataset_properties_attr p) cfg (steps p)")
  have "set_steps E (dataset_properties_attr p) cfg st' = (st', e)"
    using set_steps_idem[of E "dataset_properties_attr p" cfg "steps p"] s by simp
  then show ?thesis using s by (simp add: set_hyperparameters_def)
qed

section \<open>Construction: the configuration check and the random state\<close>

lemma finish_init_Inr:
  assumes "finish_init E p0 c seed = Inr p"
  shows "configuration_attr p = Some c \<and> configuration p = Some c
       \<and> (\<exists>r. (if seed = PyNone then check_random_state E (PyInt 1)
                else check_random_state E seed) = Inr r \<and> random_state p = Some r)"
  using assms
  by (auto simp: finish_init_def set_hyperparameters_def split: prod.splits option.splits sum.splits if_splits)

lemma init_Inr_finish:
  assumes "init E config pipeline dataset_properties incl excl seed = Inr p"
  shows "\<exists>p0 c. finish_init E p0 c seed = Inr p"
  using assms
  by (auto simp: init_def Let_def split: sum.splits prod.splits config_arg.splits if_splits)

lemma finish_init_steps:
  assumes "finish_init E p0 c seed = Inr p"
  shows "dataset_properties_attr p = dataset_properties_attr p0
       \<and> set_steps E (dataset_properties_attr p0) c (steps p0) = (steps p, None)"
  using assms
  by (auto simp: finish_init_def set_hyperparameters_def
      split: prod.splits option.splits sum.splits if_splits)

text \<open>
  C3. Let the steps be there and the search space be rebuilt as \<open>cs\<close> from the given dataset
  properties, include and exclude. For a \<open>Configuration\<close> object passed to the constructor:
  \<^item> if its configuration space is not equal to \<open>cs\<close>, construction fails with the
    \<open>ValueError\<close> whose message is \<open>Configuration passed does not come from the same
    configuration space. Differences are:\<close> followed by the lines of the unified diff of
    the two spaces' texts, joined by newlines;
  \<^item> if it is equal, construction is the application of that configuration with
    \<open>set_hyperparameters\<close> to the new object, followed by the random state: it fails as
    they fail and otherwise returns the object they leave;
  \<^item> an object that is built was given a configuration of the space \<open>cs\<close>, holds that
    configuration in \<open>configuration_\<close> and \<open>configuration\<close>, and every one of its steps
    has had applied to it the sub-configuration that the routing makes of that
    configuration for the step. No object is built from a configuration of another space.
\<close>

theorem init_configuration_mismatch:
  assumes pl: "(case pipeline of None \<Rightarrow> get_pipeline E | Some given \<Rightarrow> Inr given)
                 = Inr initial_steps"
      and sp: "get_hyperparameter_search_space E incl excl dataset_properties = (Inr cs, dp')"
      and dp: "dp = (case dataset_properties of
                        None \<Rightarrow> []
                      | Some d \<Rightarrow> (case dp' of None \<Rightarrow> d | Some d' \<Rightarrow> d'))"
  shows "(configuration_space c \<noteq> cs \<longrightarrow>
            init E (ConfigObj c) pipeline dataset_properties incl excl seed
              = Inl (ValueError
                  (''Configuration passed does not come from the same configuration space. Differences are: ''
                   @ join [CHR 0x0A]
                       (unified_diff E (str_splitlines E cs)
                          (str_splitlines E (configuration_space c))))))
       \<and> (configuration_space c = cs \<longrightarrow>
            init E (ConfigObj c) pipeline dataset_properties incl excl seed
              = (case set_hyperparameters E
                        \<lparr>steps = initial_steps, dataset_properties_attr = dp,
                         configuration_attr = Some c, configuration = None,
                         random_state = None\<rparr> c of
                   (p', Some e) \<Rightarrow> Inl e
                 | (p', None) \<Rightarrow>
                     (case (if seed = PyNone then check_random_state E (PyInt 1)
                            else check_random_state E seed) of
                        Inl e \<Rightarrow> Inl e
                      | Inr r \<Rightarrow> Inr (p'\<lparr>random_state := Some r\<rparr>))))
       \<and> (\<forall>p. init E (ConfigObj c) pipeline dataset_properties incl excl seed = Inr p
              \<longrightarrow> configuration_space c = cs
                  \<and> configuration_attr p = Some c \<and> configuration p = Some c
                  \<and> dataset_properties_attr p = dp
                  \<and> length (steps p) = length initial_steps
                  \<and> (\<forall>i < length initial_steps.
                        \<exists>sub. new_Configuration E
                                (node_space E (descr (snd (initial_steps ! i))) dp None)
                                (sub_config_dict (fst (initial_steps ! i)) (config_values c))
                              = Inr sub
                            \<and> steps p ! i
                                = (fst (initial_steps ! i),
                                   node_set_hyperparameters (snd (initial_steps ! i)) sub)))"
proof -
  let ?p0 = "\<lparr>steps = initial_steps, dataset_properties_attr = dp,
              configuration_attr = None, configuration = None,
              random_state = None :: 'c option\<rparr>"
  have eq: "init E (ConfigObj c) pipeline dataset_properties incl excl seed
        = (if cs \<noteq> configuration_space c
           then Inl (ValueError (mismatch_message E cs (configuration_space c)))
           else finish_init E ?p0 c seed)"
    using pl sp dp by (simp add: init_def Let_def)
  have c1: "configuration_space c \<noteq> cs \<longrightarrow>
            init E (ConfigObj c) pipeline dataset_properties incl excl seed
              = Inl (ValueError
                  (''Configuration passed does not come from the same configuration space. Differences are: ''
                   @ join [CHR 0x0A]
                       (unified_diff E (str_splitlines E cs)
                          (str_splitlines E (configuration_space c)))))"
    using eq by (auto simp: mismatch_message_def)
  have c2: "configuration_space c = cs \<longrightarrow>
            init E (ConfigObj c) pipeline dataset_properties incl excl seed
              = (case set_hyperparameters E
                        \<lparr>steps = initial_steps, dataset_properties_attr = dp,
                         configuration_attr = Some c, configuration = None,
                         random_state = None\<rparr> c of
                   (p', Some e) \<Rightarrow> Inl e
                 | (p', None) \<Rightarrow>
                     (case (if seed = PyNone then check_random_state E (PyInt 1)
                            else check_random_state E seed) of
                        Inl e \<Rightarrow> Inl e
                      | Inr r \<Rightarrow> Inr (p'\<lparr>random_state := Some r\<rparr>)))"
    using eq by (auto simp: finish_init_def)
  have c3: "configuration_space c = cs
                  \<and> configuration_attr p = Some c \<and> configuration p = Some c
                  \<and> dataset_properties_attr p = dp
                  \<and> length (steps p) = length initial_steps
                  \<and> (\<forall>i < length initial_steps.
                        \<exists>sub. new_Configuration E
                                (node_space E (descr (snd (initial_steps ! i))) dp None)
                                (sub_config_dict (fst (initial_steps ! i)) (config_values c))
                              = Inr sub
                            \<and> steps p ! i
                                = (fst (initial_steps ! i),
                                   node_set_hyperparameters (snd (initial_steps ! i)) sub))"
    if i: "init E (ConfigObj c) pipeline dataset_properties incl excl seed = Inr p" for p
  proof -
    have ok: "cs = configuration_space c" and f: "finish_init E ?p0 c seed = Inr p"
      using eq i by (auto split: if_splits)
    have st: "set_steps E dp c initial_steps = (steps p, None)"
      and d: "dataset_properties_attr p = dp"
      using finish_init_steps[OF f] by simp_all
    have len: "length (steps p) = length initial_steps"
      using set_steps_length[of E dp c initial_steps] st by simp
    have each: "\<exists>sub. new_Configuration E
                                (node_space E (descr (snd (initial_steps ! i))) dp None)
                                (sub_config_dict (fst (initial_steps ! i)) (config_values c))
                              = Inr sub
                            \<and> steps p ! i
                                = (fst (initial_steps ! i),
                                   node_set_hyperparameters (snd (initial_steps ! i)) sub)"
      if "i < length initial_steps" for i
      using set_steps_routes[OF st that, of "fst (initial_steps ! i)" "snd (initial_steps ! i)"]
      by simp
    show ?thesis using ok d len each finish_init_Inr[OF f] by simp
  qed
  show ?thesis using c1 c2 c3 by blast
qed

theorem init_configuration_mismatch_witness:
  "get_pipeline example_env = Inr example_steps
   \<and> get_hyperparameter_search_space example_env None None None = (Inr example_space, None)
   \<and> init example_env (ConfigObj \<lparr>configuration_space = [''other:x''], config_values = []\<rparr>)
         None None None None PyNone
       = Inl (ValueError
           (''Configuration passed does not come from the same configuration space. Differences are: ''
            @ ''-imputation:strategy'' @ [CHR 0x0A] @ ''-classifier:__choice__'' @ [CHR 0x0A]
            @ ''+other:x''))
   \<and> init example_env (ConfigObj example_configuration) None None None None PyNone
       = Inr example_built"
  using init_configuration_mismatch
    [where E = example_env and pipeline = None and initial_steps = example_steps
       and incl = None and excl = None and dataset_properties = None
       and cs = example_space and dp' = None and seed = PyNone and dp = "[]"
       and c = "\<lparr>configuration_space = [''other:x''], config_values = []\<rparr>"]
    init_configuration_mismatch
    [where E = example_env and pipeline = None and initial_steps = example_steps
       and incl = None and excl = None and dataset_properties = None
       and cs = example_space and dp' = None and seed = PyNone and dp = "[]"
       and c = example_configuration]
  by (simp add: example_env_def example_configuration_def example_space_def example_steps_def
      example_built_def set_hyperparameters_def sub_config_dict_def
      node_set_hyperparameters_def)

text \<open>
  C10. A pipeline that has been constructed holds the generator
  \<open>check_random_state(1)\<close> when \<open>random_state\<close> was \<open>None\<close>, and \<open>check_random_state\<close> of the
  given seed otherwise; so any two pipelines constructed without a seed hold the same
  random state.
\<close>

theorem init_random_state:
  assumes "init E config pipeline dataset_properties incl excl seed = Inr p"
  shows "(\<exists>r. random_state p = Some r
            \<and> (if seed = PyNone then check_random_state E (PyInt 1)
                else check_random_state E seed) = Inr r)
       \<and> (\<forall>config' pipeline' dataset_properties' incl' excl' p'.
            seed = PyNone
            \<longrightarrow> init E config' pipeline' dataset_properties' incl' excl' PyNone = Inr p'
            \<longrightarrow> random_state p' = random_state p)"
proof -
  obtain p0 c where f: "finish_init E p0 c seed = Inr p" using init_Inr_finish[OF assms] by blast
  from finish_init_Inr[OF f] obtain r where
    r: "random_state p = Some r"
       "(if seed = PyNone then check_random_state E (PyInt 1) else check_random_state E seed) = Inr r"
    by blast
  have "random_state p' = random_state p"
    if "seed = PyNone" and i: "init E config' pipeline' dataset_properties' incl' excl' PyNone = Inr p'"
    for config' pipeline' dataset_properties' incl' excl' p'
  proof -
    obtain p0' c' where f': "finish_init E p0' c' PyNone = Inr p'" using init_Inr_finish[OF i] by blast
    from finish_init_Inr[OF f'] r that(1) show ?thesis by auto
  qed
  then show ?thesis using r by blast
qed

theorem init_random_state_witness:
  "init example_env (ConfigObj example_configuration) None None None None PyNone
     = Inr example_built
   \<and> random_state example_built = Some 1
   \<and> check_random_state example_env (PyInt 1) = Inr 1"
  using init_random_state
    [where E = example_env and config = "ConfigObj example_configuration" and pipeline = None
       and dataset_properties = None and incl = None and excl = None and seed = PyNone
       and p = example_built]
  by (simp add: init_def example_env_def example_configuration_def example_space_def
      example_steps_def example_built_def finish_init_def set_hyperparameters_def
      sub_config_dict_def node_set_hyperparameters_def)

section \<open>Search-space construction: selectors, the matrix, the defaults\<close>

lemma first_invalid_key_None:
  "first_invalid_key pipeline selector = None
   \<longleftrightarrow> (\<forall>key \<in> fst ` set selector. key \<in> fst ` set pipeline)"
  by (auto simp: first_invalid_key_def Let_def find_None_iff)

lemma first_invalid_key_Some:
  "first_invalid_key pipeline selector = Some key
   \<Longrightarrow> key \<in> fst ` set selector \<and> key \<notin> fst ` set pipeline"
  by (auto simp: first_invalid_key_def Let_def find_Some_iff)

text \<open>
  C6. If every key of \<open>include\<close> and of \<open>exclude\<close> is the name of a step, the validation
  passes and the function goes on with the rest of the construction. Otherwise it fails
  with the \<open>ValueError\<close> for an invalid key, which names the argument, a key of that
  argument that is no step name, and the step names.
\<close>

theorem invalid_selector_key:
  fixes E :: "('d, 'cs, 'r) env"
  defines "inc \<equiv> (\<lambda>incl. case incl of None \<Rightarrow> [] | Some (i :: string list dict) \<Rightarrow> i)"
  shows "if (\<forall>key \<in> fst ` set (inc incl) \<union> fst ` set (inc excl). key \<in> fst ` set pipeline)
         then get_hyperparameter_search_space_impl E cs dataset_properties excl incl pipeline
              = (case dataset_properties of
                   None \<Rightarrow> (Inl (TypeError ''argument of type 'NoneType' is not iterable''), None)
                 | Some d \<Rightarrow>
                     (case build_search_space E cs d (inc excl) (inc incl) pipeline of
                        (r, d') \<Rightarrow> (r, Some d')))
         else (\<exists>arg key. key \<notin> fst ` set pipeline
                 \<and> (arg = ''include'' \<and> key \<in> fst ` set (inc incl)
                    \<or> arg = ''exclude'' \<and> key \<in> fst ` set (inc excl))
                 \<and> get_hyperparameter_search_space_impl E cs dataset_properties excl incl pipeline
                     = (Inl (InvalidKey arg key (map fst pipeline)), dataset_properties))"
proof (cases "first_invalid_key pipeline (inc incl)")
  case (Some key)
  then have "key \<in> fst ` set (inc incl)" "key \<notin> fst ` set pipeline"
    using first_invalid_key_Some by blast+
  moreover have "get_hyperparameter_search_space_impl E cs dataset_properties excl incl pipeline
                     = (Inl (InvalidKey ''include'' key (map fst pipeline)), dataset_properties)"
    using Some by (simp add: get_hyperparameter_search_space_impl_def inc_def Let_def)
  ultimately show ?thesis by auto
next
  case None
  note incNone = None
  show ?thesis
  proof (cases "first_invalid_key pipeline (inc excl)")
    case (Some key)
    then have "key \<in> fst ` set (inc excl)" "key \<notin> fst ` set pipeline"
      using first_invalid_key_Some by blast+
    moreover have "get_hyperparameter_search_space_impl E cs dataset_properties excl incl pipeline
                     = (Inl (InvalidKey ''exclude'' key (map fst pipeline)), dataset_properties)"
      using Some incNone by (simp add: get_hyperparameter_search_space_impl_def inc_def Let_def)
    ultimately show ?thesis by auto
  next
    case None
    have v: "\<forall>key \<in> fst ` set (inc incl) \<union> fst ` set (inc excl). key \<in> fst ` set pipeline"
      using None incNone by (auto simp: first_invalid_key_None)
    have "get_hyperparameter_search_space_impl E cs dataset_properties excl incl pipeline
              = (case dataset_properties of
                   None \<Rightarrow> (Inl (TypeError ''argument of type 'NoneType' is not iterable''), None)
                 | Some d \<Rightarrow>
                     (case build_search_space E cs d (inc excl) (inc incl) pipeline of
                        (r, d') \<Rightarrow> (r, Some d')))"
      using None incNone
      by (cases dataset_properties)
         (simp_all add: get_hyperparameter_search_space_impl_def inc_def Let_def)
    then show ?thesis using v by simp
  qed
qed

theorem invalid_selector_key_witness:
  "get_hyperparameter_search_space_impl example_env [] (Some [])
      (Some [(''preprocessor'', [''pca''])]) None example_steps
     = (Inl (InvalidKey ''exclude'' ''preprocessor'' [''imputation'', ''classifier'']), Some [])
   \<and> get_hyperparameter_search_space_impl example_env [] (Some [])
      None (Some [(''classifier'', [''random_forest''])]) example_steps
     = (Inr [''imputation:strategy'', ''classifier:__choice__''],
        Some [(''sparse'', PyBool False), (''signed'', PyBool False)])"
  using invalid_selector_key
    [where E = example_env and cs = "[]" and dataset_properties = "Some []"
       and excl = "Some [(''preprocessor'', [''pca''])]" and incl = None
       and pipeline = example_steps]
    invalid_selector_key
    [where E = example_env and cs = "[]" and dataset_properties = "Some []"
       and excl = None and incl = "Some [(''classifier'', [''random_forest''])]"
       and pipeline = example_steps]
  by (simp add: example_env_def example_steps_def build_search_space_def apply_defaults_def
      np_sum_def np_size_def)

lemma impl_valid:
  assumes "\<forall>key \<in> fst ` set (case incl of None \<Rightarrow> [] | Some i \<Rightarrow> i). key \<in> fst ` set pipeline"
      and "\<forall>key \<in> fst ` set (case excl of None \<Rightarrow> [] | Some x \<Rightarrow> x). key \<in> fst ` set pipeline"
  shows "get_hyperparameter_search_space_impl E cs (Some d) excl incl pipeline
         = (fst (build_search_space E cs d (case excl of None \<Rightarrow> [] | Some x \<Rightarrow> x)
                   (case incl of None \<Rightarrow> [] | Some i \<Rightarrow> i) pipeline),
            Some (snd (build_search_space E cs d (case excl of None \<Rightarrow> [] | Some x \<Rightarrow> x)
                   (case incl of None \<Rightarrow> [] | Some i \<Rightarrow> i) pipeline)))"
proof -
  have i: "first_invalid_key pipeline (case incl of None \<Rightarrow> [] | Some i \<Rightarrow> i) = None"
    using assms(1) by (simp only: first_invalid_key_None)
  have x: "first_invalid_key pipeline (case excl of None \<Rightarrow> [] | Some x \<Rightarrow> x) = None"
    using assms(2) by (simp only: first_invalid_key_None)
  show ?thesis
    by (simp add: get_hyperparameter_search_space_impl_def Let_def i x split: prod.splits)
qed

lemma sum_list_binary:
  "list_all (\<lambda>c. c = 0 \<or> c = (1::int)) xs \<Longrightarrow> sum_list xs = int (length (filter (\<lambda>c. c \<noteq> 0) xs))"
  by (induction xs) auto

lemma binary_sum: "is_binary m \<Longrightarrow> np_sum m = true_count m"
  by (simp add: is_binary_def np_sum_def true_count_def sum_list_binary)

lemma true_count_le: "true_count m \<le> np_size m"
  by (simp add: true_count_def np_size_def)

lemma build_fst_cases:
  "fst (build_search_space E cs d exc inc pipeline) = Inr cs' \<Longrightarrow>
   np_sum (get_match_array E pipeline (apply_defaults d) inc exc) \<noteq> 0 \<and>
   np_sum (get_match_array E pipeline (apply_defaults d) inc exc)
     \<le> np_size (get_match_array E pipeline (apply_defaults d) inc exc)"
  by (auto simp: build_search_space_def Let_def split: if_splits sum.splits)

lemma build_zero:
  "np_sum (get_match_array E pipeline (apply_defaults d) inc exc) = 0 \<Longrightarrow>
   fst (build_search_space E cs d exc inc pipeline) = Inl (AssertionError ''No valid pipeline found.'')"
  by (simp add: build_search_space_def Let_def)

lemma build_snd: "snd (build_search_space E cs d exc inc pipeline) = apply_defaults d"
  by (simp add: build_search_space_def Let_def split: sum.splits)

text \<open>
  C2. For valid selectors and every mapping of dataset properties, with \<open>matches\<close> the
  matrix computed during the construction: a matrix whose sum is zero makes the
  construction fail with \<open>No valid pipeline found.\<close>, and a construction that returns a
  space had a matrix with a non-zero sum that does not exceed its size. For an indicator
  matrix (entries 0 or 1) the sum is the number of true entries, which never exceeds the
  size, so that a construction that succeeds has \<open>0 < true_count \<le> size\<close> and one with no
  true entry fails.
\<close>

theorem compatibility_matrix_checked:
  fixes E :: "('d, 'cs, 'r) env"
  assumes "\<forall>key \<in> fst ` set (case incl of None \<Rightarrow> [] | Some i \<Rightarrow> i). key \<in> fst ` set pipeline"
      and "\<forall>key \<in> fst ` set (case excl of None \<Rightarrow> [] | Some x \<Rightarrow> x). key \<in> fst ` set pipeline"
      and "matches = get_match_array E pipeline (apply_defaults d)
                       (case incl of None \<Rightarrow> [] | Some i \<Rightarrow> i)
                       (case excl of None \<Rightarrow> [] | Some x \<Rightarrow> x)"
      and "result = fst (get_hyperparameter_search_space_impl E cs (Some d) excl incl pipeline)"
  shows "(np_sum matches = 0 \<longrightarrow> result = Inl (AssertionError ''No valid pipeline found.''))
       \<and> (\<forall>cs'. result = Inr cs' \<longrightarrow> np_sum matches \<noteq> 0 \<and> np_sum matches \<le> np_size matches)
       \<and> (is_binary matches \<longrightarrow>
            np_sum matches = true_count matches \<and> true_count matches \<le> np_size matches
            \<and> (true_count matches = 0 \<longrightarrow> result = Inl (AssertionError ''No valid pipeline found.''))
            \<and> (\<forall>cs'. result = Inr cs' \<longrightarrow> 0 < true_count matches))"
proof -
  have r: "result = fst (build_search_space E cs d (case excl of None \<Rightarrow> [] | Some x \<Rightarrow> x)
                   (case incl of None \<Rightarrow> [] | Some i \<Rightarrow> i) pipeline)"
    using assms(4) by (simp add: impl_valid[OF assms(1,2)])
  have z: "np_sum matches = 0 \<longrightarrow> result = Inl (AssertionError ''No valid pipeline found.'')"
    using r assms(3) build_zero by metis
  have s: "\<forall>cs'. result = Inr cs' \<longrightarrow> np_sum matches \<noteq> 0 \<and> np_sum matches \<le> np_size matches"
    using r assms(3) build_fst_cases by metis
  have nn: "0 \<le> true_count matches" by (simp add: true_count_def)
  show ?thesis
  proof (intro conjI)
    show "is_binary matches \<longrightarrow>
            np_sum matches = true_count matches \<and> true_count matches \<le> np_size matches
            \<and> (true_count matches = 0 \<longrightarrow> result = Inl (AssertionError ''No valid pipeline found.''))
            \<and> (\<forall>cs'. result = Inr cs' \<longrightarrow> 0 < true_count matches)"
    proof
      assume b: "is_binary matches"
      have e: "np_sum matches = true_count matches" using b by (rule binary_sum)
      show "np_sum matches = true_count matches \<and> true_count matches \<le> np_size matches
            \<and> (true_count matches = 0 \<longrightarrow> result = Inl (AssertionError ''No valid pipeline found.''))
            \<and> (\<forall>cs'. result = Inr cs' \<longrightarrow> 0 < true_count matches)"
        using e z s nn true_count_le[of matches] by (metis order_less_le)
    qed
  qed (use z s in blast)+
qed

theorem compatibility_matrix_checked_witness:
  "is_binary \<lparr>shape = [2], cells = [0, 1]\<rparr>
   \<and> true_count \<lparr>shape = [2], cells = [0, 1]\<rparr> = 1
   \<and> np_size \<lparr>shape = [2], cells = [0, 1]\<rparr> = 2
   \<and> fst (get_hyperparameter_search_space_impl example_env [] (Some []) None None example_steps)
       = Inr [''imputation:strategy'', ''classifier:__choice__'']
   \<and> is_binary \<lparr>shape = [2], cells = [0, 0]\<rparr>
   \<and> true_count \<lparr>shape = [2], cells = [0, 0]\<rparr> = 0
   \<and> fst (get_hyperparameter_search_space_impl
             (example_env\<lparr>get_match_array := (\<lambda>pl dp inc exc. \<lparr>shape = [2], cells = [0, 0]\<rparr>)\<rparr>)
             [] (Some []) None None example_steps)
       = Inl (AssertionError ''No valid pipeline found.'')"
  using compatibility_matrix_checked
    [where E = example_env and cs = "[]" and d = "[]" and excl = None and incl = None
       and pipeline = example_steps and matches = "\<lparr>shape = [2], cells = [0, 1]\<rparr>"
       and result = "Inr [''imputation:strategy'', ''classifier:__choice__'']"]
    compatibility_matrix_checked
    [where E = "example_env\<lparr>get_match_array := (\<lambda>pl dp inc exc. \<lparr>shape = [2], cells = [0, 0]\<rparr>)\<rparr>"
       and cs = "[]" and d = "[]" and excl = None and incl = None
       and pipeline = example_steps and matches = "\<lparr>shape = [2], cells = [0, 0]\<rparr>"
       and result = "Inl (AssertionError ''No valid pipeline found.'')"]
  by (simp add: example_env_def example_steps_def build_search_space_def apply_defaults_def
      get_hyperparameter_search_space_impl_def first_invalid_key_def
      np_sum_def np_size_def is_binary_def true_count_def)

lemma apply_defaults_lookup:
  "map_of (apply_defaults d) k =
     (if (k = ''sparse'' \<or> k = ''signed'') \<and> map_of d k = None then Some (PyBool False)
      else map_of d k)"
  by (auto simp: apply_defaults_def Let_def update_conv')

lemma apply_defaults_same:
  "apply_defaults d = d \<longleftrightarrow> map_of d ''sparse'' \<noteq> None \<and> map_of d ''signed'' \<noteq> None"
proof
  assume "apply_defaults d = d"
  then have "\<forall>k. map_of (apply_defaults d) k = map_of d k" by simp
  then show "map_of d ''sparse'' \<noteq> None \<and> map_of d ''signed'' \<noteq> None"
    unfolding apply_defaults_lookup by (metis option.distinct(1))
next
  assume "map_of d ''sparse'' \<noteq> None \<and> map_of d ''signed'' \<noteq> None"
  then show "apply_defaults d = d" by (auto simp: apply_defaults_def Let_def)
qed

text \<open>
  C8, as the code has it. For valid selectors, the defaults \<open>sparse = False\<close> and
  \<open>signed = False\<close> are written into the caller's mapping itself for the keys absent from
  it: after the call the mapping holds them, every key that was present keeps its value,
  no other key is added, and the mapping is as it was exactly when it already held both
  keys.
\<close>

theorem defaults_written_into_mapping:
  fixes E :: "('d, 'cs, 'r) env"
  assumes "\<forall>key \<in> fst ` set (case incl of None \<Rightarrow> [] | Some i \<Rightarrow> i). key \<in> fst ` set pipeline"
      and "\<forall>key \<in> fst ` set (case excl of None \<Rightarrow> [] | Some x \<Rightarrow> x). key \<in> fst ` set pipeline"
  shows "\<exists>d'. snd (get_hyperparameter_search_space_impl E cs (Some d) excl incl pipeline) = Some d'
          \<and> map_of d' ''sparse'' = (case map_of d ''sparse'' of None \<Rightarrow> Some (PyBool False) | Some v \<Rightarrow> Some v)
          \<and> map_of d' ''signed'' = (case map_of d ''signed'' of None \<Rightarrow> Some (PyBool False) | Some v \<Rightarrow> Some v)
          \<and> (\<forall>k. k \<noteq> ''sparse'' \<and> k \<noteq> ''signed'' \<longrightarrow> map_of d' k = map_of d k)
          \<and> (d' = d \<longleftrightarrow> map_of d ''sparse'' \<noteq> None \<and> map_of d ''signed'' \<noteq> None)"
proof -
  have "snd (get_hyperparameter_search_space_impl E cs (Some d) excl incl pipeline)
        = Some (apply_defaults d)"
    by (simp add: impl_valid[OF assms] build_snd)
  then show ?thesis
    using apply_defaults_same[of d]
    by (auto simp: apply_defaults_lookup split: option.splits)
qed

theorem defaults_written_into_mapping_witness:
  "snd (get_hyperparameter_search_space_impl example_env [] (Some [(''sparse'', PyBool True)])
          None None example_steps)
     = Some [(''sparse'', PyBool True), (''signed'', PyBool False)]
   \<and> snd (get_hyperparameter_search_space_impl example_env []
          (Some [(''signed'', PyBool True), (''sparse'', PyBool True)]) None None example_steps)
     = Some [(''signed'', PyBool True), (''sparse'', PyBool True)]"
  using defaults_written_into_mapping
    [where E = example_env and cs = "[]" and d = "[(''sparse'', PyBool True)]"
       and excl = None and incl = None and pipeline = example_steps]
  by (simp add: example_env_def example_steps_def build_search_space_def apply_defaults_def
      get_hyperparameter_search_space_impl_def first_invalid_key_def
      np_sum_def np_size_def)

text \<open>
  C8 as stated, that the caller's mapping is left unchanged, fails on an empty mapping:
  the construction succeeds and the mapping then holds the two defaults.
\<close>

theorem mapping_unchanged_counterexample:
  "fst (get_hyperparameter_search_space_impl example_env [] (Some []) None None example_steps)
     = Inr [''imputation:strategy'', ''classifier:__choice__'']
   \<and> snd (get_hyperparameter_search_space_impl example_env [] (Some []) None None example_steps)
     = Some [(''sparse'', PyBool False), (''signed'', PyBool False)]
   \<and> snd (get_hyperparameter_search_space_impl example_env [] (Some []) None None example_steps)
     \<noteq> Some []"
  by (simp add: example_env_def example_steps_def build_search_space_def apply_defaults_def
      get_hyperparameter_search_space_impl_def first_invalid_key_def
      np_sum_def np_size_def)

section \<open>The textual representation with dataset properties\<close>

text \<open>
  C9. The representation is a function of the object, so it is the same at every call.
  Without dataset properties it lists the hyperparameters sorted by name. With dataset
  properties it is formatted from the dict \<open>configuration\<close> and not from
  \<open>configuration_string\<close>: for a configuration that yields \<open>b\<close> before \<open>a\<close>, the
  hyperparameters come out as \<open>{'b': 1, 'a': 2}\<close>, not sorted by name.
\<close>

theorem repr_with_dataset_properties_unsorted:
  "repr_pipeline example_env unsorted_pipeline
     = Inr (''BasePipeline({'b': 1, 'a': 2},'' @ [CHR 0x0A]
            @ ''dataset_properties={'' @ [CHR 0x0A] @ ''  'sparse': False})'')
   \<and> repr_pipeline example_env (unsorted_pipeline\<lparr>dataset_properties_attr := []\<rparr>)
     = Inr (''BasePipeline(config={'' @ [CHR 0x0A] @ ''  'a': 2,'' @ [CHR 0x0A]
            @ ''  'b': 1})'')"
  by (simp add: repr_pipeline_def unsorted_pipeline_def example_pipeline_def example_env_def
      active_values_def configuration_string_def str_dict_def show_int_def)

end
